theory Spec2Isabelle
  imports Main "HOL-Library.Word"
begin

section \<open>Homa core: Receiver and operation life cycle\<close>

text \<open>
  A shallow embedding of \<^verbatim>\<open>src/src/Receiver.cc\<close> (namespace \<^verbatim>\<open>Homa::Core\<close>) and of the
  parts of the Transport that the tests in \<^verbatim>\<open>src/src/TransportTest.cc\<close> exercise.
  Pointers are natural numbers, a null pointer is \<open>None\<close>, the objects behind the pointers
  live in explicit stores, and the calls made on the driver and the scheduler are recorded
  in logs.  The spin locks are not modelled: every function is one atomic step.
\<close>

subsection \<open>Protocol data\<close>

type_synonym uint16 = "16 word"
type_synonym uint32 = "32 word"
type_synonym uint64 = "64 word"

type_synonym op_ptr = nat       \<comment> \<open>\<^verbatim>\<open>OpContext*\<close>\<close>
type_synonym msg_ptr = nat      \<comment> \<open>\<^verbatim>\<open>InboundMessage*\<close>\<close>
type_synonym packet_ptr = nat   \<comment> \<open>\<^verbatim>\<open>Driver::Packet*\<close>\<close>
type_synonym address = nat      \<comment> \<open>\<^verbatim>\<open>Driver::Address*\<close>\<close>

text \<open>\<^verbatim>\<open>Protocol::MessageId\<close>: the triple (transport id, op sequence, tag).\<close>

record MessageId =
  transportId :: uint64
  sequence :: uint64
  tag :: uint32

text \<open>\<^verbatim>\<open>Protocol::Packet::DataHeader\<close>, as far as \<^verbatim>\<open>handleDataPacket\<close> reads it.\<close>

record CommonHeader =
  messageId :: MessageId

record DataHeader =
  common :: CommonHeader
  index :: uint16
  totalLength :: uint32

text \<open>
  \<^verbatim>\<open>Driver::Packet\<close>: the packet's own pointer (what \<^verbatim>\<open>releasePackets\<close> and
  \<^verbatim>\<open>setPacket\<close> receive), its transient address and its payload read as a data header.
\<close>

record Packet =
  self :: packet_ptr
  address :: address
  payload :: DataHeader

text \<open>
  The driver, as far as the Receiver consults it: \<^verbatim>\<open>getMaxPayloadSize()\<close>,
  \<^verbatim>\<open>getAddress(std::string const*)\<close> and \<^verbatim>\<open>Address::toString()\<close> of the addresses it
  hands out.  The driver is outside the repository's core, so these are parameters.
\<close>

record Driver =
  getMaxPayloadSize :: uint32
  getAddress :: "string \<Rightarrow> address"
  toString :: "address \<Rightarrow> string"

subsection \<open>Message buffer\<close>

text \<open>
  Modelled from the spec: the class \<^verbatim>\<open>Message\<close> (Message.h and Message.cc are not among the
  sources).  The buffer carries a fixed per-packet data length, derived from the driver's
  maximum payload minus the header size, a declared raw length, an occupancy bitmap over
  packet slots and the packet references.  \<^verbatim>\<open>setPacket\<close> returns false if the slot is
  already occupied and changes nothing then; the number of packets follows the occupancy.
\<close>

record Message =
  PACKET_HEADER_LENGTH :: uint16
  PACKET_DATA_LENGTH :: uint32
  messageLength :: uint32
  occupied :: "uint16 set"
  packets :: "uint16 \<rightharpoonup> packet_ptr"
  numPackets :: uint32

text \<open>
  Modelled from the spec: the constructor of \<^verbatim>\<open>Message\<close> (Message.cc is absent), called as
  \<^verbatim>\<open>message.construct(driver, dataHeaderLength, messageLength)\<close>: an empty buffer whose
  per-packet data length is the driver's maximum payload minus the header length.
\<close>

definition Message_construct :: "Driver \<Rightarrow> uint16 \<Rightarrow> uint32 \<Rightarrow> Message" where
  "Message_construct driver dataHeaderLength messageLength' =
     \<lparr> PACKET_HEADER_LENGTH = dataHeaderLength,
       PACKET_DATA_LENGTH = getMaxPayloadSize driver - ucast dataHeaderLength,
       messageLength = messageLength',
       occupied = {},
       packets = Map.empty,
       numPackets = 0 \<rparr>"

text \<open>Modelled from the spec: \<^verbatim>\<open>Message::rawLength()\<close> (Message.cc is absent), the declared length.\<close>

definition rawLength :: "Message \<Rightarrow> uint32" where
  "rawLength m = messageLength m"

text \<open>
  Modelled from the spec: \<^verbatim>\<open>Message::getNumPackets()\<close> (Message.cc is absent), the number of
  occupied slots.
\<close>

definition getNumPackets :: "Message \<Rightarrow> uint32" where
  "getNumPackets m = numPackets m"

text \<open>
  Modelled from the spec: \<^verbatim>\<open>Message::setPacket(index, packet)\<close> (Message.cc is absent).  A slot
  is set at most once; setting it twice is rejected.
\<close>

definition setPacket :: "uint16 \<Rightarrow> packet_ptr \<Rightarrow> Message \<Rightarrow> bool \<times> Message" where
  "setPacket i packet m =
     (if i \<in> occupied m then (False, m)
      else (True, m\<lparr> packets := (packets m)(i \<mapsto> packet),
                      occupied := insert i (occupied m),
                      numPackets := numPackets m + 1 \<rparr>))"

text \<open>
  \<^verbatim>\<open>sizeof(Protocol::Packet::DataHeader)\<close>.  Protocol.h is not among the sources; the value
  is the one ReceiverTest fixes, where a maximum payload of 1028 bytes gives a
  \<^verbatim>\<open>PACKET_DATA_LENGTH\<close> of 1000.
\<close>

definition sizeof_DataHeader :: uint16 where
  "sizeof_DataHeader = 28"

subsection \<open>Inbound messages and their pool\<close>

text \<open>
  \<^verbatim>\<open>Receiver::InboundMessage\<close> with the fields Receiver.cc touches.  The lazily
  constructed buffer \<^verbatim>\<open>message\<close> and the source pointer are optional values.
\<close>

record InboundMessage =
  id_m :: MessageId
  message :: "Message option"
  source :: "address option"
  fullMessageReceived :: bool

text \<open>What \<^verbatim>\<open>messagePool.construct()\<close> followed by \<^verbatim>\<open>message->id = id\<close> leaves behind.\<close>

definition InboundMessage_new :: "MessageId \<Rightarrow> InboundMessage" where
  "InboundMessage_new i =
     \<lparr> id_m = i, message = None, source = None, fullMessageReceived = False \<rparr>"

text \<open>
  Modelled from the spec: \<^verbatim>\<open>ObjectPool<InboundMessage>\<close> (ObjectPool.h is not among the
  sources).  Objects live in slots; destruction returns a slot to the pool without freeing
  its storage, and construction takes the first free slot or a new one.  A pointer is the
  index of its slot.
\<close>

type_synonym pool = "InboundMessage option list"

text \<open>
  Modelled from the spec: the operations of \<^verbatim>\<open>ObjectPool\<close> (ObjectPool.h is absent): reading
  and writing through a pointer, \<^verbatim>\<open>construct\<close>, \<^verbatim>\<open>destroy\<close> and the counter
  \<^verbatim>\<open>outstandingObjects\<close>.  A read through a pointer to no live object gives \<open>None\<close>.
\<close>

definition pool_get :: "pool \<Rightarrow> msg_ptr \<Rightarrow> InboundMessage option" where
  "pool_get p m = (if m < length p then p ! m else None)"

definition pool_put :: "pool \<Rightarrow> msg_ptr \<Rightarrow> InboundMessage \<Rightarrow> pool" where
  "pool_put p m v = p[m := Some v]"

fun firstFree :: "pool \<Rightarrow> nat" where
  "firstFree [] = 0"
| "firstFree (None # p) = 0"
| "firstFree (Some v # p) = Suc (firstFree p)"

definition pool_construct :: "pool \<Rightarrow> InboundMessage \<Rightarrow> msg_ptr \<times> pool" where
  "pool_construct p v =
     (let m = firstFree p
      in (m, if m < length p then p[m := Some v] else p @ [Some v]))"

definition pool_destroy :: "pool \<Rightarrow> msg_ptr \<Rightarrow> pool" where
  "pool_destroy p m = p[m := None]"

definition outstandingObjects :: "pool \<Rightarrow> nat" where
  "outstandingObjects p = length (filter (\<lambda>s. s \<noteq> None) p)"

subsection \<open>Receiver state\<close>

text \<open>
  The members of \<^verbatim>\<open>Receiver\<close>, the \<^verbatim>\<open>inMessage\<close> field of every \<^verbatim>\<open>OpContext\<close> (here
  \<open>opInMessage\<close>: the Receiver reads and writes it through the op pointer), and the logs of
  the calls
  \<^verbatim>\<open>driver->releasePackets(&packet, 1)\<close> and \<^verbatim>\<open>scheduler->packetReceived(...)\<close>.
\<close>

record Receiver =
  registeredOps :: "MessageId \<rightharpoonup> op_ptr"
  unregisteredMessages :: "MessageId \<rightharpoonup> msg_ptr"
  receivedMessages :: "msg_ptr list"
  messagePool :: pool
  opInMessage :: "op_ptr \<Rightarrow> msg_ptr option"
  releasePackets :: "packet_ptr list"
  packetReceived :: "(MessageId \<times> address \<times> uint32 \<times> uint32) list"

text \<open>
  Ways in which a call does not return: a failed \<^verbatim>\<open>assert\<close>, or the use of a pointer
  that is null or points to no live object.
\<close>

datatype error =
    AssertInMessageNull     \<comment> \<open>\<^verbatim>\<open>assert(op->inMessage != nullptr)\<close>\<close>
  | AssertIdMismatch        \<comment> \<open>\<^verbatim>\<open>assert(id == message->id)\<close>\<close>
  | AssertSourceMismatch    \<comment> \<open>\<^verbatim>\<open>assert(message->source->toString() == packet->address->toString())\<close>\<close>
  | AssertLengthMismatch    \<comment> \<open>\<^verbatim>\<open>assert(message->message->rawLength() == header->totalLength)\<close>\<close>
  | InvalidPointer          \<comment> \<open>a dereference of a null or dangling pointer\<close>

subsection \<open>Receiver::handleDataPacket\<close>

text \<open>
  The block under the Receiver's mutex: find the message of the id among the registered
  ops, then among the unregistered messages, and otherwise construct one, insert it in
  \<^verbatim>\<open>unregisteredMessages\<close> and push it on \<^verbatim>\<open>receivedMessages\<close>.
\<close>

definition findMessage ::
  "MessageId \<Rightarrow> Receiver \<Rightarrow> error + (op_ptr option \<times> msg_ptr \<times> Receiver)" where
  "findMessage i r =
     (case registeredOps r i of
        Some op' \<Rightarrow>
          (case opInMessage r op' of
             None \<Rightarrow> Inl AssertInMessageNull
           | Some m \<Rightarrow> Inr (Some op', m, r))
      | None \<Rightarrow>
          (case unregisteredMessages r i of
             Some m \<Rightarrow> Inr (None, m, r)
           | None \<Rightarrow>
               (let (m, p) = pool_construct (messagePool r) (InboundMessage_new i)
                in Inr (None, m,
                     r\<lparr> messagePool := p,
                        unregisteredMessages := (unregisteredMessages r)(i \<mapsto> m),
                        receivedMessages := receivedMessages r @ [m] \<rparr>))))"

text \<open>
  The lazy construction of the buffer on the first packet, with the source address taken
  from the driver.
\<close>

definition lazyInit :: "Driver \<Rightarrow> Packet \<Rightarrow> InboundMessage \<Rightarrow> InboundMessage" where
  "lazyInit driver packet im =
     (case message im of
        Some b \<Rightarrow> im
      | None \<Rightarrow>
          im\<lparr> message :=
                Some (Message_construct driver sizeof_DataHeader (totalLength (payload packet))),
              source := Some (getAddress driver (toString driver (address packet))) \<rparr>)"

text \<open>The rest of the function, under the message's mutex.\<close>

definition processPacket ::
  "Driver \<Rightarrow> Packet \<Rightarrow> MessageId \<Rightarrow> op_ptr option \<Rightarrow> msg_ptr \<Rightarrow> InboundMessage \<Rightarrow> Receiver \<Rightarrow>
     error + (op_ptr option \<times> Receiver)" where
  "processPacket driver packet i op' m im r =
     (if fullMessageReceived im then
        Inr (None, r\<lparr> messagePool := pool_put (messagePool r) m im,
                      releasePackets := releasePackets r @ [self packet] \<rparr>)
      else
        (case (source im, message im) of
           (Some src, Some b) \<Rightarrow>
             if toString driver src \<noteq> toString driver (address packet) then
               Inl AssertSourceMismatch
             else if rawLength b \<noteq> totalLength (payload packet) then
               Inl AssertLengthMismatch
             else
               (let (packetAdded, b') = setPacket (index (payload packet)) (self packet) b
                in if packetAdded then
                     (let totalReceivedBytes = PACKET_DATA_LENGTH b' * getNumPackets b';
                          calls = packetReceived r @ [(i, src, rawLength b', totalReceivedBytes)]
                      in if totalReceivedBytes \<ge> rawLength b' then
                           Inr (op',
                                r\<lparr> messagePool := pool_put (messagePool r) m
                                     (im\<lparr> message := Some b', fullMessageReceived := True \<rparr>),
                                   packetReceived := calls \<rparr>)
                         else
                           Inr (None,
                                r\<lparr> messagePool := pool_put (messagePool r) m
                                     (im\<lparr> message := Some b' \<rparr>),
                                   packetReceived := calls \<rparr>))
                   else
                     Inr (None,
                          r\<lparr> messagePool := pool_put (messagePool r) m (im\<lparr> message := Some b' \<rparr>),
                             releasePackets := releasePackets r @ [self packet] \<rparr>))
         | _ \<Rightarrow> Inl InvalidPointer))"

definition handleDataPacket ::
  "Driver \<Rightarrow> Packet \<Rightarrow> Receiver \<Rightarrow> error + (op_ptr option \<times> Receiver)" where
  "handleDataPacket driver packet r =
     (let i = messageId (common (payload packet))
      in case findMessage i r of
           Inl e \<Rightarrow> Inl e
         | Inr (op', m, r1) \<Rightarrow>
             (case pool_get (messagePool r1) m of
                None \<Rightarrow> Inl InvalidPointer
              | Some im \<Rightarrow>
                  if i \<noteq> id_m im then Inl AssertIdMismatch
                  else processPacket driver packet i op' m (lazyInit driver packet im) r1))"

text \<open>
  A sequence of calls, one per packet, in order.  The run stops at the first call that
  does not return.
\<close>

fun handleDataPackets ::
  "Driver \<Rightarrow> Packet list \<Rightarrow> Receiver \<Rightarrow> error + (op_ptr option list \<times> Receiver)" where
  "handleDataPackets driver [] r = Inr ([], r)"
| "handleDataPackets driver (packet # rest) r =
     (case handleDataPacket driver packet r of
        Inl e \<Rightarrow> Inl e
      | Inr (ret, r1) \<Rightarrow>
          (case handleDataPackets driver rest r1 of
             Inl e \<Rightarrow> Inl e
           | Inr (rets, r2) \<Rightarrow> Inr (ret # rets, r2)))"

subsection \<open>The other operations of the Receiver\<close>

definition receiveMessage :: "Receiver \<Rightarrow> msg_ptr option \<times> Receiver" where
  "receiveMessage r =
     (case receivedMessages r of
        [] \<Rightarrow> (None, r)
      | m # rest \<Rightarrow> (Some m, r\<lparr> receivedMessages := rest \<rparr>))"

definition dropMessage :: "msg_ptr \<Rightarrow> Receiver \<Rightarrow> error + Receiver" where
  "dropMessage m r =
     (case pool_get (messagePool r) m of
        None \<Rightarrow> Inl InvalidPointer
      | Some im \<Rightarrow>
          Inr (r\<lparr> unregisteredMessages := (unregisteredMessages r)(id_m im := None),
                  messagePool := pool_destroy (messagePool r) m \<rparr>))"

text \<open>
  \<^verbatim>\<open>registeredOps.insert({id, op})\<close> is the insertion of \<^verbatim>\<open>std::unordered_map\<close>: it leaves
  an entry that is already there.
\<close>

definition registerOp :: "MessageId \<Rightarrow> op_ptr \<Rightarrow> Receiver \<Rightarrow> Receiver" where
  "registerOp i op' r =
     (let (m, r1) =
            (case unregisteredMessages r i of
               Some m \<Rightarrow> (m, r\<lparr> unregisteredMessages := (unregisteredMessages r)(i := None) \<rparr>)
             | None \<Rightarrow>
                 (let (m, p) = pool_construct (messagePool r) (InboundMessage_new i)
                  in (m, r\<lparr> messagePool := p \<rparr>)))
      in r1\<lparr> opInMessage := (opInMessage r1)(op' := Some m),
              registeredOps :=
                (if registeredOps r1 i = None then (registeredOps r1)(i \<mapsto> op')
                 else registeredOps r1) \<rparr>)"

definition dropOp :: "op_ptr \<Rightarrow> Receiver \<Rightarrow> error + Receiver" where
  "dropOp op' r =
     (case opInMessage r op' of
        None \<Rightarrow> Inl AssertInMessageNull
      | Some m \<Rightarrow>
          (case pool_get (messagePool r) m of
             None \<Rightarrow> Inl InvalidPointer
           | Some im \<Rightarrow>
               Inr (r\<lparr> opInMessage := (opInMessage r)(op' := None),
                       registeredOps := (registeredOps r)(id_m im := None),
                       messagePool := pool_destroy (messagePool r) m \<rparr>)))"

text \<open>The Receiver as its constructor leaves it, with no op holding a message.\<close>

definition Receiver_new :: Receiver where
  "Receiver_new =
     \<lparr> registeredOps = Map.empty, unregisteredMessages = Map.empty, receivedMessages = [],
       messagePool = [], opInMessage = (\<lambda>op'. None), releasePackets = [], packetReceived = [] \<rparr>"

subsection \<open>What a caller observes of the Receiver\<close>

text \<open>
  The message in which the packets of an id are accumulated: the lookup of
  \<^verbatim>\<open>handleDataPacket\<close>, read off a state without changing it.
\<close>

definition messageOf :: "MessageId \<Rightarrow> Receiver \<Rightarrow> msg_ptr option" where
  "messageOf i r =
     (case registeredOps r i of
        Some op' \<Rightarrow> opInMessage r op'
      | None \<Rightarrow> unregisteredMessages r i)"

text \<open>An id is known when it is a key of \<^verbatim>\<open>registeredOps\<close> or of \<^verbatim>\<open>unregisteredMessages\<close>.\<close>

definition known :: "MessageId \<Rightarrow> Receiver \<Rightarrow> bool" where
  "known i r = (registeredOps r i \<noteq> None \<or> unregisteredMessages r i \<noteq> None)"

text \<open>The flag \<^verbatim>\<open>fullMessageReceived\<close> behind a message pointer; false for no object.\<close>

definition isFull :: "Receiver \<Rightarrow> msg_ptr \<Rightarrow> bool" where
  "isFull r m =
     (case pool_get (messagePool r) m of
        Some im \<Rightarrow> fullMessageReceived im
      | None \<Rightarrow> False)"

text \<open>The buffer behind a message pointer, if it has been constructed.\<close>

definition bufferOf :: "Receiver \<Rightarrow> msg_ptr \<Rightarrow> Message option" where
  "bufferOf r m =
     (case pool_get (messagePool r) m of
        Some im \<Rightarrow> message im
      | None \<Rightarrow> None)"

text \<open>The cached source address behind a message pointer.\<close>

definition sourceOf :: "Receiver \<Rightarrow> msg_ptr \<Rightarrow> address option" where
  "sourceOf r m =
     (case pool_get (messagePool r) m of
        Some im \<Rightarrow> source im
      | None \<Rightarrow> None)"

text \<open>The occupied slots of that buffer; none before the buffer exists.\<close>

definition occupiedSlots :: "Receiver \<Rightarrow> msg_ptr \<Rightarrow> uint16 set" where
  "occupiedSlots r m =
     (case bufferOf r m of
        Some b \<Rightarrow> occupied b
      | None \<Rightarrow> {})"

subsection \<open>Operation contexts and the Transport\<close>

text \<open>
  Modelled from the spec: \<^verbatim>\<open>Transport::Op\<close> with \<^verbatim>\<open>processUpdates\<close>, \<^verbatim>\<open>hintUpdate\<close> and
  \<^verbatim>\<open>drop\<close>, and \<^verbatim>\<open>Transport::sendRequest\<close> (Transport.cc, OpContext.h, Sender.h and
  Protocol.h are not among the sources; Transport.h only declares \<^verbatim>\<open>sendRequest\<close>).  The
  model follows section 4.5 and 4.6 of the specification and the tests of
  TransportTest.cc.  The sender, the receiver and the driver are mocked in those tests;
  here the calls made on them are recorded in logs.
\<close>

datatype State = NOT_STARTED | IN_PROGRESS | COMPLETED | FAILED

text \<open>
  Modelled from the spec: \<^verbatim>\<open>OutboundMessage\<close> and its \<^verbatim>\<open>isDone()\<close> (Sender.h is absent).  The
  message is complete when \<open>done\<close> is true for a send that expects an acknowledgement, or
  when \<open>sent\<close> is true and no DONE is required.
\<close>

record OutboundMessage =
  sent :: bool
  acknowledged :: bool   \<comment> \<open>the flag \<^verbatim>\<open>done\<close>\<close>
  expectAck :: bool

definition isDone :: "OutboundMessage \<Rightarrow> bool" where
  "isDone om = (if expectAck om then acknowledged om else sent om)"

text \<open>
  Modelled from the spec: \<^verbatim>\<open>InboundMessage::isReady()\<close> (Receiver.h is absent): the inbound
  message is ready when it is fully received.
\<close>

definition isReady :: "InboundMessage \<Rightarrow> bool" where
  "isReady im = fullMessageReceived im"

text \<open>
  Modelled from the spec: the fields of \<^verbatim>\<open>Transport::Op\<close> (OpContext.h and Transport.cc are
  absent).  \<open>inMessage\<close> is the pointer to the inbound message, null or the object it points
  to as it is when the op is looked at (the op only reads it).
\<close>

record Op =
  isServerOp :: bool
  state :: State
  inMessage :: "InboundMessage option"
  outMessage :: OutboundMessage
  retained :: bool
  destroy :: bool

text \<open>The two sentinel tags of \<^verbatim>\<open>Protocol::MessageId\<close>; their values are parameters.\<close>

record Tags =
  INITIAL_REQUEST_TAG :: uint32
  ULTIMATE_RESPONSE_TAG :: uint32

datatype Opcode = DATA | GRANT | DONE

text \<open>The calls on the driver, in order.\<close>

datatype DriverCall =
    AllocPacket packet_ptr
  | SendPackets packet_ptr Opcode MessageId "address option"
  | ReleasePackets packet_ptr

record Transport =
  thisTransportId :: uint64                 \<comment> \<open>\<^verbatim>\<open>Transport::transportId\<close>\<close>
  nextOpSequenceNumber :: uint64
  pendingServerOps :: "op_ptr list"
  updateHints :: "op_ptr list"
  unusedOps :: "op_ptr list"
  nextPacket :: packet_ptr                  \<comment> \<open>what \<^verbatim>\<open>driver->allocPacket()\<close> returns next\<close>
  driverCalls :: "DriverCall list"
  sendMessage :: "(MessageId \<times> address \<times> op_ptr \<times> bool) list"   \<comment> \<open>calls of \<^verbatim>\<open>Sender::sendMessage\<close>\<close>
  receiverRegisterOp :: "(MessageId \<times> op_ptr) list"              \<comment> \<open>calls of \<^verbatim>\<open>Receiver::registerOp\<close>\<close>

text \<open>
  Modelled from the spec: \<^verbatim>\<open>Transport::Op::hintUpdate()\<close> (Transport.cc is absent).  It is
  idempotent: an op already on the hint set is not added again.
\<close>

definition hintUpdate :: "op_ptr \<Rightarrow> Transport \<Rightarrow> Transport" where
  "hintUpdate this t =
     (if this \<in> set (updateHints t) then t
      else t\<lparr> updateHints := updateHints t @ [this] \<rparr>)"

text \<open>
  Modelled from the spec: \<^verbatim>\<open>Transport::Op::drop()\<close> (Transport.cc is absent).  It sets
  \<open>destroy\<close> and pushes the op on \<open>unusedOps\<close>, once.
\<close>

definition drop_op :: "op_ptr \<Rightarrow> Op \<Rightarrow> Transport \<Rightarrow> Op \<times> Transport" where
  "drop_op this op' t =
     (if destroy op' then (op', t)
      else (op'\<lparr> destroy := True \<rparr>, t\<lparr> unusedOps := unusedOps t @ [this] \<rparr>))"

text \<open>
  Modelled from the spec: the synthesized DONE of \<^verbatim>\<open>processUpdates\<close> (Transport.cc is absent):
  a packet allocated from the driver, sent to the original requester, and released after
  the send.
\<close>

definition sendDonePacket :: "InboundMessage \<Rightarrow> Transport \<Rightarrow> Transport" where
  "sendDonePacket im t =
     (let packet = nextPacket t
      in t\<lparr> nextPacket := Suc packet,
             driverCalls := driverCalls t @
               [AllocPacket packet, SendPackets packet DONE (id_m im) (source im),
                ReleasePackets packet] \<rparr>)"

text \<open>
  Modelled from the spec: \<^verbatim>\<open>Transport::Op::processUpdates()\<close> (Transport.cc is absent), after
  section 4.5: nothing happens once \<open>destroy\<close> is set; a server-role op moves from
  \<^verbatim>\<open>NOT_STARTED\<close> to \<^verbatim>\<open>IN_PROGRESS\<close> when its inbound message is ready and from
  \<^verbatim>\<open>IN_PROGRESS\<close> to \<^verbatim>\<open>COMPLETED\<close> when its outbound message is done, and is dropped in a
  terminal state once it is not retained; a client-role op is dropped once it is not
  retained and otherwise moves from \<^verbatim>\<open>IN_PROGRESS\<close> to \<^verbatim>\<open>COMPLETED\<close> when its inbound
  message is ready.  Every change of state hints an update.
\<close>

definition processUpdates :: "Tags \<Rightarrow> op_ptr \<Rightarrow> Op \<Rightarrow> Transport \<Rightarrow> error + (Op \<times> Transport)" where
  "processUpdates tags this op' t =
     (if destroy op' then Inr (op', t)
      else if isServerOp op' then
        (case state op' of
           NOT_STARTED \<Rightarrow>
             (case inMessage op' of
                None \<Rightarrow> Inl InvalidPointer
              | Some im \<Rightarrow>
                  if isReady im then
                    Inr (op'\<lparr> state := IN_PROGRESS \<rparr>,
                         hintUpdate this (t\<lparr> pendingServerOps := pendingServerOps t @ [this] \<rparr>))
                  else Inr (op', t))
         | IN_PROGRESS \<Rightarrow>
             if isDone (outMessage op') then
               (case inMessage op' of
                  None \<Rightarrow> Inl InvalidPointer
                | Some im \<Rightarrow>
                    Inr (op'\<lparr> state := COMPLETED \<rparr>,
                         hintUpdate this
                           (if tag (id_m im) = INITIAL_REQUEST_TAG tags then t
                            else sendDonePacket im t)))
             else Inr (op', t)
         | COMPLETED \<Rightarrow> if \<not> retained op' then Inr (drop_op this op' t) else Inr (op', t)
         | FAILED \<Rightarrow> if \<not> retained op' then Inr (drop_op this op' t) else Inr (op', t))
      else if \<not> retained op' then Inr (drop_op this op' t)
      else
        (case state op' of
           NOT_STARTED \<Rightarrow> Inr (op', t)
         | IN_PROGRESS \<Rightarrow>
             (case inMessage op' of
                None \<Rightarrow> Inl InvalidPointer
              | Some im \<Rightarrow>
                  if isReady im then Inr (op'\<lparr> state := COMPLETED \<rparr>, hintUpdate this t)
                  else Inr (op', t))
         | COMPLETED \<Rightarrow> Inr (op', t)
         | FAILED \<Rightarrow> Inr (op', t)))"

text \<open>
  Modelled from the spec: the id of a chained request of a server-role op, formed in
  \<^verbatim>\<open>Transport::sendRequest\<close> (Transport.cc is absent).  The test
  \<^verbatim>\<open>TransportTest.sendRequest_ServerOp\<close> fixes the direction of the step: it builds the
  inbound id from the expected id by \<^verbatim>\<open>tag--\<close>, so the id sent is the inbound id with its
  tag one higher.
\<close>

definition chainedRequestId :: "MessageId \<Rightarrow> MessageId" where
  "chainedRequestId i = i\<lparr> tag := tag i + 1 \<rparr>"

text \<open>
  Modelled from the spec: the same id as the specification words it (``decrementing the inbound's tag by one''),
  kept apart for the comparison with the test.
\<close>

definition chainedRequestId_spec :: "MessageId \<Rightarrow> MessageId" where
  "chainedRequestId_spec i = i\<lparr> tag := tag i - 1 \<rparr>"

text \<open>
  Modelled from the spec: \<^verbatim>\<open>Transport::sendRequest(op, destination)\<close> (Transport.cc is absent;
  Transport.h declares it), after section 4.6.  A client-role op gets a fresh op id, is
  registered with the Receiver under the response tag, is sent under the request tag
  without acknowledgement and moves to \<^verbatim>\<open>IN_PROGRESS\<close>.  A server-role op sends a chained
  request with \<^verbatim>\<open>expectAck = true\<close>.
\<close>

definition sendRequest ::
  "Tags \<Rightarrow> op_ptr \<Rightarrow> address \<Rightarrow> Op \<Rightarrow> Transport \<Rightarrow> error + (Op \<times> Transport)" where
  "sendRequest tags this destination op' t =
     (if isServerOp op' then
        (case inMessage op' of
           None \<Rightarrow> Inl InvalidPointer
         | Some im \<Rightarrow>
             Inr (op', t\<lparr> sendMessage := sendMessage t @
                            [(chainedRequestId (id_m im), destination, this, True)] \<rparr>))
      else
        (let tid = thisTransportId t; sq = nextOpSequenceNumber t
         in Inr (op'\<lparr> state := IN_PROGRESS \<rparr>,
                 t\<lparr> nextOpSequenceNumber := sq + 1,
                    receiverRegisterOp := receiverRegisterOp t @
                      [(\<lparr> transportId = tid, sequence = sq, tag = ULTIMATE_RESPONSE_TAG tags \<rparr>, this)],
                    sendMessage := sendMessage t @
                      [(\<lparr> transportId = tid, sequence = sq, tag = INITIAL_REQUEST_TAG tags \<rparr>,
                        destination, this, False)] \<rparr>)))"

subsection \<open>Fixtures of the tests\<close>

text \<open>
  The values of \<^verbatim>\<open>ReceiverTest\<close>: a driver with a maximum payload of 1028 bytes whose
  address \<open>7\<close> prints as \<^verbatim>\<open>remote-location\<close>, the id (42, 32, 22), a packet of a message of
  1420 bytes, and a receiver with op \<open>1\<close> registered for that id.
\<close>

definition test_driver :: Driver where
  "test_driver =
     \<lparr> getMaxPayloadSize = 1028,
       getAddress = (\<lambda>s. if s = ''remote-location'' then 7 else 0),
       toString = (\<lambda>a. if a = 7 then ''remote-location'' else ''elsewhere'') \<rparr>"

definition test_id :: MessageId where
  "test_id = \<lparr> transportId = 42, sequence = 32, tag = 22 \<rparr>"

definition test_packet :: "uint16 \<Rightarrow> Packet" where
  "test_packet n =
     \<lparr> self = 5, address = 7,
       payload = \<lparr> common = \<lparr> messageId = test_id \<rparr>, index = n, totalLength = 1420 \<rparr> \<rparr>"

definition receiver_registered :: Receiver where
  "receiver_registered =
     Receiver_new\<lparr> registeredOps := [test_id \<mapsto> 1],
                   messagePool := [Some (InboundMessage_new test_id)],
                   opInMessage := (\<lambda>op'. None)(1 := Some 0) \<rparr>"

text \<open>The state of \<open>receiver_registered\<close> once the packet of index 1 has been added.\<close>

definition receiver_one_packet :: Receiver where
  "receiver_one_packet =
     receiver_registered
       \<lparr> messagePool :=
           [Some \<lparr> id_m = test_id,
                   message = Some \<lparr> PACKET_HEADER_LENGTH = 28, PACKET_DATA_LENGTH = 1000,
                                    messageLength = 1420, occupied = {1}, packets = [1 \<mapsto> 5],
                                    numPackets = 1 \<rparr>,
                   source = Some 7, fullMessageReceived = False \<rparr>],
         packetReceived := [(test_id, 7, 1420, 1000)] \<rparr>"

text \<open>The state of \<open>receiver_one_packet\<close> once the packet of index 0 has completed the message.\<close>

definition receiver_complete :: Receiver where
  "receiver_complete =
     receiver_registered
       \<lparr> messagePool :=
           [Some \<lparr> id_m = test_id,
                   message = Some \<lparr> PACKET_HEADER_LENGTH = 28, PACKET_DATA_LENGTH = 1000,
                                    messageLength = 1420, occupied = {0, 1},
                                    packets = [1 \<mapsto> 5, 0 \<mapsto> 5], numPackets = 2 \<rparr>,
                   source = Some 7, fullMessageReceived = True \<rparr>],
         packetReceived := [(test_id, 7, 1420, 1000), (test_id, 7, 1420, 2000)] \<rparr>"

text \<open>
  The state of \<^verbatim>\<open>ReceiverTest.handleDataPacket_newUnregistered\<close> after its call: a fresh
  receiver that has received one packet of an id nobody registered.
\<close>

definition receiver_newUnregistered :: Receiver where
  "receiver_newUnregistered =
     (case handleDataPacket test_driver (test_packet 1) Receiver_new of
        Inr (ret, r) \<Rightarrow> r
      | Inl e \<Rightarrow> Receiver_new)"

text \<open>
  A driver whose \<^verbatim>\<open>getAddress\<close> hands back, for every string, an address that prints as
  \<^verbatim>\<open>elsewhere\<close>; and a packet of the test's id that comes from another address and declares
  another total length.
\<close>

definition lossy_driver :: Driver where
  "lossy_driver =
     \<lparr> getMaxPayloadSize = 1028,
       getAddress = (\<lambda>s. 0),
       toString = (\<lambda>a. if a = 7 then ''remote-location'' else ''elsewhere'') \<rparr>"

definition stray_packet :: Packet where
  "stray_packet =
     \<lparr> self = 6, address = 9,
       payload = \<lparr> common = \<lparr> messageId = test_id \<rparr>, index = 3, totalLength = 999 \<rparr> \<rparr>"

text \<open>
  The values of \<^verbatim>\<open>TransportTest\<close>: transport id 22 and, in \<^verbatim>\<open>sendRequest_ServerOp\<close>, the
  expected id (22, 42, 3), an inbound message whose id is the expected id after
  \<^verbatim>\<open>tag--\<close>, and the destination 22.  The sentinel tags are a choice of two distinct values.
\<close>

definition test_tags :: Tags where
  "test_tags = \<lparr> INITIAL_REQUEST_TAG = 1, ULTIMATE_RESPONSE_TAG = 0 \<rparr>"

definition test_transport :: Transport where
  "test_transport =
     \<lparr> thisTransportId = 22, nextOpSequenceNumber = 1, pendingServerOps = [], updateHints = [],
       unusedOps = [], nextPacket = 0, driverCalls = [], sendMessage = [],
       receiverRegisterOp = [] \<rparr>"

definition test_expectedId :: MessageId where
  "test_expectedId = \<lparr> transportId = 22, sequence = 42, tag = 3 \<rparr>"

definition test_inbound :: "uint32 \<Rightarrow> InboundMessage" where
  "test_inbound tg = InboundMessage_new (test_expectedId\<lparr> tag := tg \<rparr>)"

definition test_op :: "bool \<Rightarrow> State \<Rightarrow> InboundMessage option \<Rightarrow> Op" where
  "test_op server st im =
     \<lparr> isServerOp = server, state = st, inMessage = im,
       outMessage = \<lparr> sent = True, acknowledged = False, expectAck = False \<rparr>,
       retained = False, destroy = False \<rparr>"

section \<open>Properties\<close>

subsection \<open>The pool\<close>

lemma pool_get_put:
  "pool_get (pool_put p m v) n = (if n = m \<and> m < length p then Some v else pool_get p n)"
  by (simp add: pool_get_def pool_put_def)

lemma length_pool_put: "length (pool_put p m v) = length p"
  by (simp add: pool_put_def)

lemma pool_get_length: "pool_get p m = Some v \<Longrightarrow> m < length p"
  by (simp add: pool_get_def split: if_splits)

lemma pool_put_same: "pool_get p m = Some v \<Longrightarrow> pool_put p m v = p"
  by (simp add: pool_get_def pool_put_def list_update_same_conv split: if_splits)

lemma firstFree_le: "firstFree p \<le> length p"
  by (induction p rule: firstFree.induct) simp_all

lemma firstFree_free: "pool_get p (firstFree p) = None"
  by (induction p rule: firstFree.induct) (auto simp: pool_get_def split: if_splits)

lemma pool_get_construct:
  "pool_get (snd (pool_construct p v)) n =
     (if n = fst (pool_construct p v) then Some v else pool_get p n)"
  using firstFree_le [of p]
  by (auto simp: pool_construct_def pool_get_def Let_def nth_append)

lemma fst_pool_construct: "fst (pool_construct p v) = firstFree p"
  by (simp add: pool_construct_def Let_def)

lemma pool_construct_eq:
  "pool_construct p v = (m, p') \<Longrightarrow> m = firstFree p \<and> p' = snd (pool_construct p v)"
  by (auto simp: pool_construct_def Let_def)

lemma count_list_update:
  "n < length xs \<Longrightarrow> P (xs ! n) = P y \<Longrightarrow>
     length (filter P (xs[n := y])) = length (filter P xs)"
proof (induction xs arbitrary: n)
  case Nil
  then show ?case by simp
next
  case (Cons x xs)
  then show ?case by (cases n) auto
qed

lemma outstandingObjects_put:
  "pool_get p m = Some w \<Longrightarrow> outstandingObjects (pool_put p m v) = outstandingObjects p"
  unfolding outstandingObjects_def pool_put_def
  by (rule count_list_update) (auto simp: pool_get_def split: if_splits)

lemma outstandingObjects_construct:
  "outstandingObjects (snd (pool_construct p v)) = Suc (outstandingObjects p)"
  by (induction p rule: firstFree.induct)
     (auto simp: pool_construct_def outstandingObjects_def Let_def split: if_splits)

subsection \<open>The steps of handleDataPacket\<close>

lemma findMessage_cases:
  assumes "findMessage i r = Inr (op', m, r1)"
  shows "(\<exists>o'. registeredOps r i = Some o' \<and> op' = Some o' \<and> opInMessage r o' = Some m \<and> r1 = r)
       \<or> (registeredOps r i = None \<and> unregisteredMessages r i = Some m \<and> op' = None \<and> r1 = r)
       \<or> (registeredOps r i = None \<and> unregisteredMessages r i = None \<and> op' = None
            \<and> m = firstFree (messagePool r)
            \<and> r1 = r\<lparr> messagePool := snd (pool_construct (messagePool r) (InboundMessage_new i)),
                      unregisteredMessages := (unregisteredMessages r)(i \<mapsto> m),
                      receivedMessages := receivedMessages r @ [m] \<rparr>)"
  using assms
  by (auto simp: findMessage_def split: option.splits prod.splits dest: pool_construct_eq)

lemma findMessage_messageOf:
  assumes "findMessage i r = Inr (op', m, r1)"
  shows "messageOf i r1 = Some m \<and> op' = registeredOps r i \<and> registeredOps r1 = registeredOps r
     \<and> opInMessage r1 = opInMessage r
     \<and> (\<forall>im. pool_get (messagePool r1) m = Some im \<longrightarrow>
           fullMessageReceived im = isFull r m)"
  using findMessage_cases [OF assms] firstFree_free [of "messagePool r"]
  by (auto simp: messageOf_def isFull_def pool_get_construct fst_pool_construct InboundMessage_new_def)

lemma fullMessageReceived_lazyInit:
  "fullMessageReceived (lazyInit driver packet im) = fullMessageReceived im"
  by (simp add: lazyInit_def split: option.splits)

lemma id_m_lazyInit: "id_m (lazyInit driver packet im) = id_m im"
  by (simp add: lazyInit_def split: option.splits)

lemma lazyInit_constructed: "message im = Some b \<Longrightarrow> lazyInit driver packet im = im"
  by (simp add: lazyInit_def)

lemma processPacket_frame:
  assumes "processPacket driver packet i op' m im r1 = Inr (ret, r')"
  shows "registeredOps r' = registeredOps r1 \<and> unregisteredMessages r' = unregisteredMessages r1
       \<and> receivedMessages r' = receivedMessages r1 \<and> opInMessage r' = opInMessage r1
       \<and> length (messagePool r') = length (messagePool r1)
       \<and> (\<forall>n. n \<noteq> m \<longrightarrow> pool_get (messagePool r') n = pool_get (messagePool r1) n)"
  using assms
  by (auto simp: processPacket_def Let_def pool_get_put length_pool_put
      split: if_splits option.splits prod.splits)

lemma processPacket_ret:
  assumes "processPacket driver packet i op' m im r1 = Inr (ret, r')"
    and "m < length (messagePool r1)"
  shows "(ret \<noteq> None) = (op' \<noteq> None \<and> \<not> fullMessageReceived im \<and> isFull r' m)"
    and "ret = None \<or> ret = op'"
  using assms
  by (auto simp: processPacket_def Let_def pool_get_put isFull_def
      split: if_splits option.splits prod.splits)

lemma handleDataPacket_Inr:
  assumes "handleDataPacket driver packet r = Inr (ret, r')"
  obtains op' m r1 im where
    "findMessage (messageId (common (payload packet))) r = Inr (op', m, r1)"
    "pool_get (messagePool r1) m = Some im"
    "id_m im = messageId (common (payload packet))"
    "processPacket driver packet (messageId (common (payload packet))) op' m
       (lazyInit driver packet im) r1 = Inr (ret, r')"
  using assms
  by (auto simp: handleDataPacket_def Let_def split: sum.splits option.splits if_splits)

lemma findMessage_known:
  "messageOf i r = Some m \<Longrightarrow> findMessage i r = Inr (registeredOps r i, m, r)"
  by (auto simp: messageOf_def findMessage_def split: option.splits)

lemma handleDataPacket_known:
  assumes "messageOf (messageId (common (payload packet))) r = Some m"
    and "pool_get (messagePool r) m = Some im"
  shows "handleDataPacket driver packet r =
           (if messageId (common (payload packet)) \<noteq> id_m im then Inl AssertIdMismatch
            else processPacket driver packet (messageId (common (payload packet)))
                   (registeredOps r (messageId (common (payload packet)))) m
                   (lazyInit driver packet im) r)"
  using assms by (simp add: handleDataPacket_def findMessage_known Let_def)

lemma message_update_same: "message im = Some b \<Longrightarrow> im\<lparr> message := Some b \<rparr> = im"
  by (cases im) simp


lemma messageOf_known: "messageOf i r = Some m \<Longrightarrow> known i r"
  by (auto simp: messageOf_def known_def split: option.splits)

lemma findMessage_frame:
  assumes "findMessage i r = Inr (op', m, r1)"
  shows "packetReceived r1 = packetReceived r \<and> releasePackets r1 = releasePackets r
       \<and> (\<forall>n. n \<noteq> m \<longrightarrow> pool_get (messagePool r1) n = pool_get (messagePool r) n)
       \<and> (\<forall>j n. messageOf j r = Some n \<longrightarrow> messageOf j r1 = Some n)
       \<and> (\<forall>j. known j r \<longrightarrow> known j r1)
       \<and> known i r1"
  using findMessage_cases [OF assms]
  by (auto simp: pool_get_construct fst_pool_construct messageOf_def known_def
      split: option.splits if_splits)

lemma findMessage_object:
  assumes "findMessage i r = Inr (op', m, r1)"
    and "pool_get (messagePool r1) m = Some im"
  shows "bufferOf r m = message im \<and> isFull r m = fullMessageReceived im"
  using findMessage_cases [OF assms(1)] assms(2) firstFree_free [of "messagePool r"]
  by (auto simp: pool_get_construct fst_pool_construct bufferOf_def isFull_def
      InboundMessage_new_def)

lemma findMessage_fifo:
  assumes "findMessage i r = Inr (op', m, r1)"
  shows "if known i r
         then receivedMessages r1 = receivedMessages r \<and> messagePool r1 = messagePool r
         else pool_get (messagePool r) m = None \<and> unregisteredMessages r1 i = Some m
            \<and> receivedMessages r1 = receivedMessages r @ [m]
            \<and> outstandingObjects (messagePool r1) = Suc (outstandingObjects (messagePool r))"
  using findMessage_cases [OF assms] firstFree_free [of "messagePool r"]
  by (auto simp: known_def outstandingObjects_construct)

lemma processPacket_message:
  assumes "processPacket driver packet i op' m im r1 = Inr (ret, r')"
    and "m < length (messagePool r1)"
    and "message im = Some b"
  shows "\<exists>im' b'. pool_get (messagePool r') m = Some im' \<and> message im' = Some b'
       \<and> id_m im' = id_m im \<and> source im' = source im \<and> messageLength b' = messageLength b
       \<and> (fullMessageReceived im \<longrightarrow> im' = im)
       \<and> (\<not> fullMessageReceived im \<longrightarrow>
            (\<exists>src. source im = Some src
                \<and> toString driver src = toString driver (address packet))
            \<and> rawLength b = totalLength (payload packet))"
  using assms
  by (auto simp: processPacket_def Let_def pool_get_put setPacket_def
      split: if_splits option.splits prod.splits)

lemma lazyInit_message:
  "\<exists>b. message (lazyInit driver packet im) = Some b
     \<and> occupied b = (case message im of Some b0 \<Rightarrow> occupied b0 | None \<Rightarrow> {})
     \<and> (message im = None \<longrightarrow> messageLength b = totalLength (payload packet))"
  by (auto simp: lazyInit_def Message_construct_def split: option.splits)

lemma processPacket_logs:
  assumes "processPacket driver packet i op' m im r1 = Inr (ret, r')"
    and "m < length (messagePool r1)"
    and "\<not> fullMessageReceived im"
    and "message im = Some b"
    and "index (payload packet) \<notin> occupied b"
  shows "\<exists>im' b' src. pool_get (messagePool r') m = Some im' \<and> message im' = Some b'
       \<and> source im' = Some src
       \<and> packetReceived r' = packetReceived r1 @
            [(i, src, rawLength b', PACKET_DATA_LENGTH b' * getNumPackets b')]
       \<and> fullMessageReceived im' = (rawLength b' \<le> PACKET_DATA_LENGTH b' * getNumPackets b')
       \<and> releasePackets r' = releasePackets r1
       \<and> packets b' (index (payload packet)) = Some (self packet)"
  using assms
  by (auto simp: processPacket_def Let_def pool_get_put setPacket_def
      split: if_splits option.splits prod.splits)

lemma handleDataPacket_frame:
  assumes "handleDataPacket driver packet r = Inr (ret, r')"
  shows "\<exists>m im. messageOf (messageId (common (payload packet))) r' = Some m
       \<and> pool_get (messagePool r') m = Some im
       \<and> id_m im = messageId (common (payload packet))
       \<and> message im \<noteq> None
       \<and> (\<forall>n. n \<noteq> m \<longrightarrow> pool_get (messagePool r') n = pool_get (messagePool r) n)"
proof -
  let ?i = "messageId (common (payload packet))"
  from assms obtain op' m r1 im where
    f: "findMessage ?i r = Inr (op', m, r1)" and
    g: "pool_get (messagePool r1) m = Some im" and
    i: "id_m im = ?i" and
    p: "processPacket driver packet ?i op' m (lazyInit driver packet im) r1 = Inr (ret, r')"
    by (rule handleDataPacket_Inr)
  from g have len: "m < length (messagePool r1)"
    by (rule pool_get_length)
  from findMessage_messageOf [OF f] have "messageOf ?i r1 = Some m" by simp
  with processPacket_frame [OF p] have m': "messageOf ?i r' = Some m"
    by (auto simp: messageOf_def split: option.splits)
  from lazyInit_message [of driver packet im] obtain b where
    b: "message (lazyInit driver packet im) = Some b" by blast
  from processPacket_message [OF p len b] i obtain im' where
    "pool_get (messagePool r') m = Some im'" "message im' \<noteq> None" "id_m im' = ?i"
    by (auto simp: id_m_lazyInit)
  moreover from processPacket_frame [OF p] findMessage_frame [OF f]
  have "\<forall>n. n \<noteq> m \<longrightarrow> pool_get (messagePool r') n = pool_get (messagePool r) n"
    by simp
  ultimately show ?thesis using m' by blast
qed

lemma handleDataPacket_stable:
  assumes "handleDataPacket driver packet r = Inr (ret, r')"
  shows "(\<forall>j n. messageOf j r = Some n \<longrightarrow> messageOf j r' = Some n)
       \<and> (\<forall>j. known j r \<longrightarrow> known j r')
       \<and> known (messageId (common (payload packet))) r'"
proof -
  let ?i = "messageId (common (payload packet))"
  from assms obtain op' m r1 im where
    f: "findMessage ?i r = Inr (op', m, r1)" and
    p: "processPacket driver packet ?i op' m (lazyInit driver packet im) r1 = Inr (ret, r')"
    by (rule handleDataPacket_Inr)
  from processPacket_frame [OF p]
  have "\<And>j. messageOf j r' = messageOf j r1" "\<And>j. known j r' = known j r1"
    by (auto simp: messageOf_def known_def split: option.splits)
  with findMessage_frame [OF f] show ?thesis by simp
qed

text \<open>A message that is full and constructed: what a further call does to it.\<close>

lemma handleDataPacket_full:
  assumes "handleDataPacket driver packet r = Inr (ret, r')"
    and "pool_get (messagePool r) m = Some im"
    and "fullMessageReceived im"
    and "message im = Some b"
  shows "pool_get (messagePool r') m = Some im"
proof -
  let ?i = "messageId (common (payload packet))"
  from assms(1) obtain op' m0 r1 im0 where
    f: "findMessage ?i r = Inr (op', m0, r1)" and
    g: "pool_get (messagePool r1) m0 = Some im0" and
    p: "processPacket driver packet ?i op' m0 (lazyInit driver packet im0) r1 = Inr (ret, r')"
    by (rule handleDataPacket_Inr)
  show ?thesis
  proof (cases "m0 = m")
    case False
    with processPacket_frame [OF p] findMessage_frame [OF f] assms(2) show ?thesis
      by simp
  next
    case True
    from findMessage_object [OF f g] True assms(2,3,4)
    have "message im0 = Some b" "fullMessageReceived im0"
      by (simp_all add: bufferOf_def isFull_def)
    from findMessage_cases [OF f] firstFree_free [of "messagePool r"] True assms(2)
    have "r1 = r" by auto
    with g True assms(2) have "im0 = im" by simp
    from g have len: "m0 < length (messagePool r1)" by (rule pool_get_length)
    from \<open>message im0 = Some b\<close> have l: "lazyInit driver packet im0 = im0"
      by (rule lazyInit_constructed)
    from processPacket_message [OF p [unfolded l] len \<open>message im0 = Some b\<close>]
      \<open>fullMessageReceived im0\<close> \<open>im0 = im\<close> True
    show ?thesis by auto
  qed
qed

lemma handleDataPacket_drop_full:
  assumes "messageOf (messageId (common (payload packet))) r = Some m"
    and "pool_get (messagePool r) m = Some im"
    and "id_m im = messageId (common (payload packet))"
    and "fullMessageReceived im"
    and "message im = Some b"
  shows "handleDataPacket driver packet r =
           Inr (None, r\<lparr> releasePackets := releasePackets r @ [self packet] \<rparr>)"
  using assms
  by (simp add: handleDataPacket_known [OF assms(1,2)] lazyInit_constructed processPacket_def
      pool_put_same)

lemma handleDataPackets_full:
  assumes "handleDataPackets driver ps r = Inr (rets, r')"
    and "messageOf i r = Some m"
    and "pool_get (messagePool r) m = Some im"
    and "fullMessageReceived im"
    and "message im = Some b"
  shows "messageOf i r' = Some m \<and> pool_get (messagePool r') m = Some im"
  using assms
proof (induction ps arbitrary: r rets)
  case Nil
  then show ?case by simp
next
  case (Cons p ps)
  from Cons.prems(1) obtain ret r1 rets1 where
    h: "handleDataPacket driver p r = Inr (ret, r1)" and
    t: "handleDataPackets driver ps r1 = Inr (rets1, r')"
    by (auto split: sum.splits)
  from handleDataPacket_stable [OF h] Cons.prems(2) have "messageOf i r1 = Some m"
    by simp
  moreover from handleDataPacket_full [OF h Cons.prems(3,4,5)]
  have "pool_get (messagePool r1) m = Some im" .
  ultimately show ?case
    using Cons.IH [OF t] Cons.prems(4,5) by simp
qed

lemma handleDataPacket_fifo:
  assumes "handleDataPacket driver packet r = Inr (ret, r')"
  shows "if known (messageId (common (payload packet))) r
         then receivedMessages r' = receivedMessages r
            \<and> outstandingObjects (messagePool r') = outstandingObjects (messagePool r)
         else (\<exists>m. pool_get (messagePool r) m = None
            \<and> unregisteredMessages r' (messageId (common (payload packet))) = Some m
            \<and> receivedMessages r' = receivedMessages r @ [m]
            \<and> outstandingObjects (messagePool r') = Suc (outstandingObjects (messagePool r)))"
proof -
  let ?i = "messageId (common (payload packet))"
  from assms obtain op' m r1 im where
    f: "findMessage ?i r = Inr (op', m, r1)" and
    g: "pool_get (messagePool r1) m = Some im" and
    p: "processPacket driver packet ?i op' m (lazyInit driver packet im) r1 = Inr (ret, r')"
    by (rule handleDataPacket_Inr)
  from p g have o: "outstandingObjects (messagePool r') = outstandingObjects (messagePool r1)"
    by (auto simp: processPacket_def Let_def outstandingObjects_put
        split: if_splits option.splits prod.splits)
  from processPacket_frame [OF p]
  have "receivedMessages r' = receivedMessages r1"
    "unregisteredMessages r' = unregisteredMessages r1"
    by simp_all
  with o findMessage_fifo [OF f] show ?thesis
    by (auto split: if_splits)
qed

lemma handleDataPackets_known:
  assumes "handleDataPackets driver ps r = Inr (rets, r')"
    and "\<forall>p\<in>set ps. known (messageId (common (payload p))) r"
  shows "receivedMessages r' = receivedMessages r
       \<and> outstandingObjects (messagePool r') = outstandingObjects (messagePool r)"
  using assms
proof (induction ps arbitrary: r rets)
  case Nil
  then show ?case by simp
next
  case (Cons p ps)
  from Cons.prems(1) obtain ret r1 rets1 where
    h: "handleDataPacket driver p r = Inr (ret, r1)" and
    t: "handleDataPackets driver ps r1 = Inr (rets1, r')"
    by (auto split: sum.splits)
  from Cons.prems(2) have k: "known (messageId (common (payload p))) r"
    by simp
  from handleDataPacket_stable [OF h] Cons.prems(2)
  have "\<forall>q\<in>set ps. known (messageId (common (payload q))) r1"
    by simp
  from Cons.IH [OF t this] handleDataPacket_fifo [OF h] k show ?case
    by simp
qed

lemma handleDataPacket_source:
  assumes "handleDataPacket driver packet r = Inr (ret, r')"
    and "pool_get (messagePool r) m = Some im"
    and "message im = Some b"
  shows "\<exists>im' b'. pool_get (messagePool r') m = Some im' \<and> message im' = Some b'
       \<and> id_m im' = id_m im \<and> source im' = source im \<and> messageLength b' = messageLength b
       \<and> (fullMessageReceived im \<longrightarrow> fullMessageReceived im')"
proof -
  let ?i = "messageId (common (payload packet))"
  from assms(1) obtain op' m0 r1 im0 where
    f: "findMessage ?i r = Inr (op', m0, r1)" and
    g: "pool_get (messagePool r1) m0 = Some im0" and
    p: "processPacket driver packet ?i op' m0 (lazyInit driver packet im0) r1 = Inr (ret, r')"
    by (rule handleDataPacket_Inr)
  show ?thesis
  proof (cases "m0 = m")
    case False
    with processPacket_frame [OF p] findMessage_frame [OF f] assms(2,3) show ?thesis
      by simp
  next
    case True
    from findMessage_cases [OF f] firstFree_free [of "messagePool r"] True assms(2)
    have "r1 = r" by auto
    with g True assms(2) have e: "im0 = im" by simp
    from g have len: "m0 < length (messagePool r1)" by (rule pool_get_length)
    from assms(3) e have l: "lazyInit driver packet im0 = im"
      by (simp add: lazyInit_constructed)
    from processPacket_message [OF p [unfolded l] len assms(3)] True
    show ?thesis by auto
  qed
qed

lemma handleDataPackets_source:
  assumes "handleDataPackets driver ps r = Inr (rets, r')"
    and "messageOf i r = Some m"
    and "pool_get (messagePool r) m = Some im"
    and "message im = Some b"
  shows "\<exists>im' b'. messageOf i r' = Some m
       \<and> pool_get (messagePool r') m = Some im' \<and> message im' = Some b'
       \<and> id_m im' = id_m im \<and> source im' = source im \<and> messageLength b' = messageLength b
       \<and> (fullMessageReceived im \<longrightarrow> fullMessageReceived im')"
  using assms
proof (induction ps arbitrary: r rets im b)
  case Nil
  then show ?case by simp
next
  case (Cons p ps)
  from Cons.prems(1) obtain ret r1 rets1 where
    h: "handleDataPacket driver p r = Inr (ret, r1)" and
    t: "handleDataPackets driver ps r1 = Inr (rets1, r')"
    by (auto split: sum.splits)
  from handleDataPacket_stable [OF h] Cons.prems(2) have m1: "messageOf i r1 = Some m"
    by simp
  from handleDataPacket_source [OF h Cons.prems(3,4)] obtain im1 b1 where
    g1: "pool_get (messagePool r1) m = Some im1" and b1: "message im1 = Some b1" and
    e: "id_m im1 = id_m im" "source im1 = source im" "messageLength b1 = messageLength b"
       "fullMessageReceived im \<longrightarrow> fullMessageReceived im1"
    by blast
  from Cons.IH [OF t m1 g1 b1] e show ?case
    by auto
qed

lemma handleDataPacket_first:
  assumes "handleDataPacket driver packet r = Inr (ret, r')"
    and "messageOf (messageId (common (payload packet))) r' = Some m"
    and "bufferOf r m = None"
  shows "\<exists>im b. pool_get (messagePool r') m = Some im \<and> message im = Some b
       \<and> id_m im = messageId (common (payload packet))
       \<and> messageLength b = totalLength (payload packet)
       \<and> (fullMessageReceived im
          \<or> (\<exists>src. source im = Some src
                \<and> toString driver src = toString driver (address packet)))"
proof -
  let ?i = "messageId (common (payload packet))"
  from assms(1) obtain op' m0 r1 im0 where
    f: "findMessage ?i r = Inr (op', m0, r1)" and
    g: "pool_get (messagePool r1) m0 = Some im0" and
    i: "id_m im0 = ?i" and
    p: "processPacket driver packet ?i op' m0 (lazyInit driver packet im0) r1 = Inr (ret, r')"
    by (rule handleDataPacket_Inr)
  from g have len: "m0 < length (messagePool r1)"
    by (rule pool_get_length)
  from findMessage_messageOf [OF f] have "messageOf ?i r1 = Some m0" by simp
  with processPacket_frame [OF p] have "messageOf ?i r' = Some m0"
    by (auto simp: messageOf_def split: option.splits)
  with assms(2) have mm: "m0 = m" by simp
  from findMessage_object [OF f g] mm assms(3) have n: "message im0 = None"
    by simp
  from lazyInit_message [of driver packet im0] n obtain b0 where
    b0: "message (lazyInit driver packet im0) = Some b0" and
    l0: "messageLength b0 = totalLength (payload packet)"
    by auto
  from processPacket_message [OF p len b0] l0 i mm show ?thesis
    by (auto simp: id_m_lazyInit)
qed

lemma handleDataPacket_asserts:
  assumes "messageOf (messageId (common (payload packet))) r = Some m"
    and "pool_get (messagePool r) m = Some im"
    and "id_m im = messageId (common (payload packet))"
    and "message im = Some b"
    and "\<not> fullMessageReceived im"
    and "source im = Some src"
  shows "toString driver (address packet) \<noteq> toString driver src
         \<Longrightarrow> handleDataPacket driver packet r = Inl AssertSourceMismatch"
    and "toString driver (address packet) = toString driver src
         \<Longrightarrow> totalLength (payload packet) \<noteq> messageLength b
         \<Longrightarrow> handleDataPacket driver packet r = Inl AssertLengthMismatch"
    and "toString driver (address packet) = toString driver src
         \<Longrightarrow> totalLength (payload packet) = messageLength b
         \<Longrightarrow> \<exists>ret r'. handleDataPacket driver packet r = Inr (ret, r')"
proof -
  let ?i = "messageId (common (payload packet))"
  from assms(3,4) handleDataPacket_known [OF assms(1,2), of driver]
  have h: "handleDataPacket driver packet r =
             processPacket driver packet ?i (registeredOps r ?i) m im r"
    by (simp add: lazyInit_constructed)
  obtain added b' where s: "setPacket (index (payload packet)) (self packet) b = (added, b')"
    by (cases "setPacket (index (payload packet)) (self packet) b") blast
  from assms(4,5,6)
  show "toString driver (address packet) \<noteq> toString driver src
         \<Longrightarrow> handleDataPacket driver packet r = Inl AssertSourceMismatch"
    by (simp add: h processPacket_def)
  from assms(4,5,6)
  show "toString driver (address packet) = toString driver src
         \<Longrightarrow> totalLength (payload packet) \<noteq> messageLength b
         \<Longrightarrow> handleDataPacket driver packet r = Inl AssertLengthMismatch"
    by (simp add: h processPacket_def rawLength_def)
  from assms(4,5,6) s
  show "toString driver (address packet) = toString driver src
         \<Longrightarrow> totalLength (payload packet) = messageLength b
         \<Longrightarrow> \<exists>ret r'. handleDataPacket driver packet r = Inr (ret, r')"
    by (simp add: h processPacket_def rawLength_def Let_def)
qed

lemma processPacket_added:
  assumes "processPacket driver packet i op' m im r1 = Inr (ret, r')"
    and "m < length (messagePool r1)"
    and "\<not> fullMessageReceived im"
    and "message im = Some b"
    and "index (payload packet) \<notin> occupied b"
  shows "\<exists>src. source im = Some src
       \<and> pool_get (messagePool r') m =
           Some \<lparr> id_m = id_m im,
                  message = Some (b\<lparr> packets := (packets b)(index (payload packet) \<mapsto> self packet),
                                     occupied := insert (index (payload packet)) (occupied b),
                                     numPackets := numPackets b + 1 \<rparr>),
                  source = Some src,
                  fullMessageReceived =
                    (messageLength b \<le> PACKET_DATA_LENGTH b * (numPackets b + 1)) \<rparr>
       \<and> packetReceived r' = packetReceived r1 @
            [(i, src, messageLength b, PACKET_DATA_LENGTH b * (numPackets b + 1))]
       \<and> releasePackets r' = releasePackets r1
       \<and> ret = (if messageLength b \<le> PACKET_DATA_LENGTH b * (numPackets b + 1)
                then op' else None)"
  using assms
  by (cases im)
     (auto simp: processPacket_def Let_def pool_get_put setPacket_def rawLength_def
        getNumPackets_def split: if_splits option.splits prod.splits)

lemma lazyInit_cases:
  "message (lazyInit driver packet im) =
     Some (case message im of
             Some b \<Rightarrow> b
           | None \<Rightarrow> Message_construct driver sizeof_DataHeader (totalLength (payload packet)))
   \<and> source (lazyInit driver packet im) =
     (case message im of
        Some b \<Rightarrow> source im
      | None \<Rightarrow> Some (getAddress driver (toString driver (address packet))))"
  by (simp add: lazyInit_def split: option.splits)

lemma findMessage_source:
  assumes "findMessage i r = Inr (op', m, r1)"
    and "pool_get (messagePool r1) m = Some im"
    and "message im = Some b"
  shows "sourceOf r m = source im"
  using findMessage_cases [OF assms(1)] assms(2,3) firstFree_free [of "messagePool r"]
  by (auto simp: pool_get_construct fst_pool_construct sourceOf_def InboundMessage_new_def)

lemmas handleDataPacket_defs =
  handleDataPacket_def findMessage_def processPacket_def lazyInit_def Message_construct_def
  sizeof_DataHeader_def rawLength_def getNumPackets_def setPacket_def pool_get_def pool_put_def
  pool_construct_def InboundMessage_new_def Let_def

lemmas fixture_defs =
  test_driver_def test_id_def test_packet_def receiver_registered_def receiver_one_packet_def
  receiver_complete_def Receiver_new_def lossy_driver_def stray_packet_def

lemma receiver_newUnregistered_eq:
  "receiver_newUnregistered =
     Receiver_new
       \<lparr> unregisteredMessages := [test_id \<mapsto> 0], receivedMessages := [0],
         messagePool :=
           [Some \<lparr> id_m = test_id,
                   message = Some \<lparr> PACKET_HEADER_LENGTH = 28, PACKET_DATA_LENGTH = 1000,
                                    messageLength = 1420, occupied = {1}, packets = [1 \<mapsto> 5],
                                    numPackets = 1 \<rparr>,
                   source = Some 7, fullMessageReceived = False \<rparr>],
         packetReceived := [(test_id, 7, 1420, 1000)] \<rparr>"
  by (simp add: receiver_newUnregistered_def handleDataPacket_defs fixture_defs)

subsection \<open>The tests, replayed\<close>

text \<open>
  \<^verbatim>\<open>ReceiverTest.handleDataPacket_basic\<close>: packet 1, packet 1 again, packet 0, packet 0 again.
  The calls return \<^verbatim>\<open>nullptr\<close>, \<^verbatim>\<open>nullptr\<close>, the op and \<^verbatim>\<open>nullptr\<close>; the scheduler hears of
  1000 and of 2000 bytes; the two duplicates are released.
\<close>

lemma replay_handleDataPacket_basic:
  "handleDataPackets test_driver [test_packet 1, test_packet 1, test_packet 0, test_packet 0]
     receiver_registered =
     Inr ([None, None, Some 1, None], receiver_complete\<lparr> releasePackets := [5, 5] \<rparr>)"
  by (simp add: handleDataPacket_defs fixture_defs)

text \<open>
  \<^verbatim>\<open>ReceiverTest.handleDataPacket_newUnregistered\<close>: one pool object, the id in
  \<^verbatim>\<open>unregisteredMessages\<close>, the message at the front of \<^verbatim>\<open>receivedMessages\<close>.
\<close>

lemma replay_handleDataPacket_newUnregistered:
  "outstandingObjects (messagePool receiver_newUnregistered) = 1
   \<and> unregisteredMessages receiver_newUnregistered test_id = Some 0
   \<and> receivedMessages receiver_newUnregistered = [0]"
  by (simp add: receiver_newUnregistered_eq outstandingObjects_def Receiver_new_def)

text \<open>
  \<^verbatim>\<open>TransportTest.Op_processUpdates_ServerOp_IN_PROGRESS_done_noSendDone\<close>: the inbound tag
  is \<^verbatim>\<open>INITIAL_REQUEST_TAG\<close>; the op completes, is hinted, and the driver is not called.
\<close>

lemma replay_processUpdates_noSendDone:
  "processUpdates test_tags 1 (test_op True IN_PROGRESS (Some (test_inbound 1))\<lparr> retained := True \<rparr>)
     test_transport =
     Inr (test_op True COMPLETED (Some (test_inbound 1))\<lparr> retained := True \<rparr>,
          test_transport\<lparr> updateHints := [1] \<rparr>)"
  by (simp add: processUpdates_def hintUpdate_def isDone_def test_op_def test_inbound_def
      InboundMessage_new_def test_expectedId_def test_tags_def test_transport_def)

subsection \<open>The return value of handleDataPacket\<close>

text \<open>
  C1.  Whenever \<^verbatim>\<open>handleDataPacket\<close> returns, it returns a non-null op pointer if and only
  if the call made the message of the packet's id fully received (the flag was false
  before the call and is true after it) and the id was a key of \<^verbatim>\<open>registeredOps\<close>; the
  pointer is then the registered op.  In every other case it returns \<^verbatim>\<open>nullptr\<close>.
\<close>

theorem handleDataPacket_returns_op_iff:
  assumes "handleDataPacket driver packet r = Inr (ret, r')"
  shows "(ret \<noteq> None) =
           ((\<exists>m. messageOf (messageId (common (payload packet))) r' = Some m
                 \<and> \<not> isFull r m \<and> isFull r' m)
            \<and> registeredOps r (messageId (common (payload packet))) \<noteq> None)
         \<and> (ret = None \<or> ret = registeredOps r (messageId (common (payload packet))))"
proof -
  let ?i = "messageId (common (payload packet))"
  from assms obtain op' m r1 im where
    f: "findMessage ?i r = Inr (op', m, r1)" and
    g: "pool_get (messagePool r1) m = Some im" and
    p: "processPacket driver packet ?i op' m (lazyInit driver packet im) r1 = Inr (ret, r')"
    by (rule handleDataPacket_Inr)
  from g have len: "m < length (messagePool r1)"
    by (rule pool_get_length)
  from findMessage_messageOf [OF f] g
  have m1: "messageOf ?i r1 = Some m" and o: "op' = registeredOps r ?i"
    and full: "fullMessageReceived im = isFull r m"
    by auto
  from processPacket_frame [OF p] m1 have m': "messageOf ?i r' = Some m"
    by (auto simp: messageOf_def split: option.splits)
  from processPacket_ret [OF p len] full o m'
  show ?thesis by (auto simp: fullMessageReceived_lazyInit)
qed

theorem handleDataPacket_returns_op_iff_witness:
  "\<exists>r'. handleDataPacket test_driver (test_packet 0) receiver_one_packet = Inr (Some 1, r')
        \<and> (\<exists>m. messageOf test_id r' = Some m \<and> \<not> isFull receiver_one_packet m \<and> isFull r' m)
        \<and> registeredOps receiver_one_packet test_id = Some 1"
proof -
  have "\<exists>r'. handleDataPacket test_driver (test_packet 0) receiver_one_packet = Inr (Some 1, r')"
    by (simp add: handleDataPacket_defs fixture_defs)
  then obtain r' where
    h: "handleDataPacket test_driver (test_packet 0) receiver_one_packet = Inr (Some 1, r')" ..
  have i: "messageId (common (payload (test_packet 0))) = test_id"
    by (simp add: test_packet_def)
  have "registeredOps receiver_one_packet test_id = Some 1"
    by (simp add: fixture_defs)
  with handleDataPacket_returns_op_iff [OF h] h i show ?thesis by auto
qed

subsection \<open>Registering an op for a message that has already arrived\<close>

text \<open>
  C2 (as amended).  If an unregistered message exists for the id, \<^verbatim>\<open>registerOp(id, op)\<close> makes
  the op's \<^verbatim>\<open>inMessage\<close> that message and removes the id from \<^verbatim>\<open>unregisteredMessages\<close>;
  it leaves \<^verbatim>\<open>receivedMessages\<close> as it was.  The message is absent from the queue
  afterwards only if it was absent before, as it is once \<^verbatim>\<open>receiveMessage\<close> has popped it.
\<close>

theorem registerOp_existing_message:
  assumes "unregisteredMessages r i = Some m"
  shows "opInMessage (registerOp i op' r) op' = Some m
       \<and> unregisteredMessages (registerOp i op' r) i = None
       \<and> receivedMessages (registerOp i op' r) = receivedMessages r"
  using assms by (simp add: registerOp_def)

theorem registerOp_existing_message_witness:
  "unregisteredMessages receiver_newUnregistered test_id = Some 0
   \<and> opInMessage (registerOp test_id 1 receiver_newUnregistered) 1 = Some 0
   \<and> unregisteredMessages (registerOp test_id 1 receiver_newUnregistered) test_id = None
   \<and> receivedMessages (registerOp test_id 1 receiver_newUnregistered) = [0]"
proof -
  have u: "unregisteredMessages receiver_newUnregistered test_id = Some 0"
    by (simp add: receiver_newUnregistered_eq Receiver_new_def)
  have f: "receivedMessages receiver_newUnregistered = [0]"
    by (simp add: receiver_newUnregistered_eq Receiver_new_def)
  from registerOp_existing_message [OF u, of 1] u f show ?thesis by simp
qed

text \<open>
  The claim as first stated has the queue no longer contain the message.  In the state of
  the test \<^verbatim>\<open>handleDataPacket_newUnregistered\<close>, where the message has just been created and
  queued, \<^verbatim>\<open>registerOp\<close> hands the message to the op and the queue still holds it.
\<close>

theorem registerOp_fifo_counterexample:
  "unregisteredMessages receiver_newUnregistered test_id = Some 0
   \<and> opInMessage (registerOp test_id 1 receiver_newUnregistered) 1 = Some 0
   \<and> 0 \<in> set (receivedMessages (registerOp test_id 1 receiver_newUnregistered))"
  by (simp add: receiver_newUnregistered_eq Receiver_new_def registerOp_def)

subsection \<open>A packet whose slot is already occupied\<close>

text \<open>
  C5.  If the slot of the packet's index is already occupied in the buffer of the id's
  message, so that \<^verbatim>\<open>setPacket\<close> returns false, a call that returns gives \<^verbatim>\<open>nullptr\<close> and
  changes nothing but the driver's log of released packets, which gains this packet: the
  scheduler is not notified, and the occupancy, the packet count and
  \<^verbatim>\<open>fullMessageReceived\<close> are as before.
\<close>

theorem handleDataPacket_duplicate:
  assumes "handleDataPacket driver packet r = Inr (ret, r')"
    and "messageOf (messageId (common (payload packet))) r = Some m"
    and "bufferOf r m = Some b"
    and "index (payload packet) \<in> occupied b"
  shows "ret = None
       \<and> r' = r\<lparr> releasePackets := releasePackets r @ [self packet] \<rparr>"
proof -
  from assms(3) obtain im where
    g: "pool_get (messagePool r) m = Some im" and b: "message im = Some b"
    by (auto simp: bufferOf_def split: option.splits)
  from b have l: "lazyInit driver packet im = im"
    by (rule lazyInit_constructed)
  from assms(1) handleDataPacket_known [OF assms(2) g, of driver]
  have p: "processPacket driver packet (messageId (common (payload packet)))
             (registeredOps r (messageId (common (payload packet)))) m im r = Inr (ret, r')"
    by (simp add: l split: if_splits)
  from p b assms(4) show ?thesis
    by (auto simp: processPacket_def setPacket_def pool_put_same [OF g] message_update_same
        split: if_splits option.splits)
qed

theorem handleDataPacket_duplicate_witness:
  "handleDataPacket test_driver (test_packet 1) receiver_one_packet =
     Inr (None, receiver_one_packet\<lparr> releasePackets := [5] \<rparr>)
   \<and> messageOf test_id receiver_one_packet = Some 0
   \<and> 1 \<in> occupiedSlots receiver_one_packet 0"
proof -
  let ?b = "\<lparr> PACKET_HEADER_LENGTH = 28, PACKET_DATA_LENGTH = 1000, messageLength = 1420,
             occupied = {1}, packets = [1 \<mapsto> 5], numPackets = 1 \<rparr>"
  have "\<exists>ret r'. handleDataPacket test_driver (test_packet 1) receiver_one_packet = Inr (ret, r')"
    by (simp add: handleDataPacket_defs fixture_defs)
  then obtain ret r' where
    h: "handleDataPacket test_driver (test_packet 1) receiver_one_packet = Inr (ret, r')"
    by blast
  have m: "messageOf (messageId (common (payload (test_packet 1)))) receiver_one_packet = Some 0"
    by (simp add: messageOf_def fixture_defs)
  have b: "bufferOf receiver_one_packet 0 = Some ?b"
    by (simp add: bufferOf_def pool_get_def fixture_defs)
  have o: "index (payload (test_packet 1)) \<in> occupied ?b"
    by (simp add: test_packet_def)
  have "releasePackets receiver_one_packet = []" "self (test_packet 1) = 5"
    by (simp_all add: fixture_defs)
  with handleDataPacket_duplicate [OF h m b o] h m b show ?thesis
    by (simp add: occupiedSlots_def test_packet_def)
qed

subsection \<open>A packet that is added\<close>

text \<open>
  C6.  Let the id's message be not yet full and the slot of the packet's index free.  Let
  \<open>b\<close> be the buffer the packet goes into, the message's buffer or, for a first packet,
  the buffer constructed from the packet's \<^verbatim>\<open>totalLength\<close>; and let \<open>s\<close> be the cached
  source, the message's source or, for a first packet, the address the driver hands out
  for the packet's address string.  A call that returns releases nothing, stores the
  packet in its slot of \<open>b\<close> and counts it, and informs the scheduler exactly once, with
  the id, the cached source, \<^verbatim>\<open>rawLength()\<close> and \<^verbatim>\<open>PACKET_DATA_LENGTH * getNumPackets()\<close>,
  the product taken in 32 bits with the packet counted.  \<^verbatim>\<open>fullMessageReceived\<close> is set
  exactly when that product is at least \<^verbatim>\<open>rawLength()\<close>, and the op is returned exactly
  then, if the id is registered.
\<close>

theorem handleDataPacket_informs_scheduler:
  assumes "handleDataPacket driver packet r = Inr (ret, r')"
    and "messageOf (messageId (common (payload packet))) r' = Some m"
    and "\<not> isFull r m"
    and "index (payload packet) \<notin> occupiedSlots r m"
    and "b = (case bufferOf r m of
                Some b0 \<Rightarrow> b0
              | None \<Rightarrow> Message_construct driver sizeof_DataHeader (totalLength (payload packet)))"
    and "s = (case bufferOf r m of
                Some b0 \<Rightarrow> sourceOf r m
              | None \<Rightarrow> Some (getAddress driver (toString driver (address packet))))"
  shows "\<exists>src. s = Some src
       \<and> pool_get (messagePool r') m =
           Some \<lparr> id_m = messageId (common (payload packet)),
                  message = Some (b\<lparr> packets := (packets b)(index (payload packet) \<mapsto> self packet),
                                     occupied := insert (index (payload packet)) (occupied b),
                                     numPackets := numPackets b + 1 \<rparr>),
                  source = Some src,
                  fullMessageReceived =
                    (messageLength b \<le> PACKET_DATA_LENGTH b * (numPackets b + 1)) \<rparr>
       \<and> packetReceived r' = packetReceived r @
            [(messageId (common (payload packet)), src, messageLength b,
              PACKET_DATA_LENGTH b * (numPackets b + 1))]
       \<and> releasePackets r' = releasePackets r
       \<and> ret = (if messageLength b \<le> PACKET_DATA_LENGTH b * (numPackets b + 1)
                then registeredOps r (messageId (common (payload packet))) else None)"
proof -
  let ?i = "messageId (common (payload packet))"
  from assms(1) obtain op' m0 r1 im0 where
    f: "findMessage ?i r = Inr (op', m0, r1)" and
    g: "pool_get (messagePool r1) m0 = Some im0" and
    i: "id_m im0 = ?i" and
    p: "processPacket driver packet ?i op' m0 (lazyInit driver packet im0) r1 = Inr (ret, r')"
    by (rule handleDataPacket_Inr)
  from g have len: "m0 < length (messagePool r1)"
    by (rule pool_get_length)
  from findMessage_messageOf [OF f] have m1: "messageOf ?i r1 = Some m0"
    and o: "op' = registeredOps r ?i" by simp_all
  from m1 processPacket_frame [OF p] have "messageOf ?i r' = Some m0"
    by (auto simp: messageOf_def split: option.splits)
  with assms(2) have mm: "m0 = m" by simp
  from findMessage_object [OF f g] mm
  have bo: "bufferOf r m = message im0" and fl: "isFull r m = fullMessageReceived im0"
    by simp_all
  have so: "message im0 \<noteq> None \<longrightarrow> sourceOf r m = source im0"
    using findMessage_source [OF f g] mm by auto
  from lazyInit_cases [of driver packet im0] bo so assms(5,6)
  have b: "message (lazyInit driver packet im0) = Some b"
    and s: "source (lazyInit driver packet im0) = s"
    by (auto split: option.splits)
  from bo assms(4,5) have free: "index (payload packet) \<notin> occupied b"
    by (auto simp: occupiedSlots_def Message_construct_def split: option.splits)
  from fl assms(3) have nf: "\<not> fullMessageReceived (lazyInit driver packet im0)"
    by (simp add: fullMessageReceived_lazyInit)
  from processPacket_added [OF p len nf b free] findMessage_frame [OF f] mm s i o
  show ?thesis by (auto simp: id_m_lazyInit)
qed

theorem handleDataPacket_informs_scheduler_witness:
  "\<exists>r'. handleDataPacket test_driver (test_packet 0) receiver_one_packet = Inr (Some 1, r')
     \<and> \<not> isFull receiver_one_packet 0
     \<and> 0 \<notin> occupiedSlots receiver_one_packet 0
     \<and> pool_get (messagePool r') 0 =
         Some \<lparr> id_m = test_id,
                message = Some \<lparr> PACKET_HEADER_LENGTH = 28, PACKET_DATA_LENGTH = 1000,
                                 messageLength = 1420, occupied = {0, 1},
                                 packets = [1 \<mapsto> 5, 0 \<mapsto> 5], numPackets = 2 \<rparr>,
                source = Some 7, fullMessageReceived = True \<rparr>
     \<and> packetReceived r' = [(test_id, 7, 1420, 1000), (test_id, 7, 1420, 2000)]
     \<and> releasePackets r' = []"
proof -
  let ?b = "\<lparr> PACKET_HEADER_LENGTH = 28, PACKET_DATA_LENGTH = 1000, messageLength = 1420,
             occupied = {1}, packets = [1 \<mapsto> 5], numPackets = 1 \<rparr>"
  have "\<exists>ret r'. handleDataPacket test_driver (test_packet 0) receiver_one_packet = Inr (ret, r')"
    by (simp add: handleDataPacket_defs fixture_defs)
  then obtain ret r' where
    h: "handleDataPacket test_driver (test_packet 0) receiver_one_packet = Inr (ret, r')"
    by blast
  have i: "messageId (common (payload (test_packet 0))) = test_id"
    by (simp add: test_packet_def)
  have "messageOf test_id receiver_one_packet = Some 0"
    by (simp add: messageOf_def fixture_defs)
  with handleDataPacket_stable [OF h] i
  have m: "messageOf (messageId (common (payload (test_packet 0)))) r' = Some 0"
    by simp
  have f: "\<not> isFull receiver_one_packet 0"
    by (simp add: isFull_def pool_get_def fixture_defs)
  have o: "index (payload (test_packet 0)) \<notin> occupiedSlots receiver_one_packet 0"
    by (simp add: occupiedSlots_def bufferOf_def pool_get_def fixture_defs)
  have b: "?b = (case bufferOf receiver_one_packet 0 of
                   Some b0 \<Rightarrow> b0
                 | None \<Rightarrow> Message_construct test_driver sizeof_DataHeader
                             (totalLength (payload (test_packet 0))))"
    by (simp add: bufferOf_def pool_get_def fixture_defs)
  have s: "Some 7 = (case bufferOf receiver_one_packet 0 of
                       Some b0 \<Rightarrow> sourceOf receiver_one_packet 0
                     | None \<Rightarrow> Some (getAddress test_driver
                                       (toString test_driver (address (test_packet 0)))))"
    by (simp add: bufferOf_def sourceOf_def pool_get_def fixture_defs)
  have q: "packetReceived receiver_one_packet = [(test_id, 7, 1420, 1000)]"
    "releasePackets receiver_one_packet = []"
    "registeredOps receiver_one_packet test_id = Some 1"
    by (simp_all add: fixture_defs)
  from handleDataPacket_informs_scheduler [OF h m f o b s] h i f o q show ?thesis
    by (simp add: test_packet_def test_id_def)
qed

subsection \<open>Completion is final\<close>

text \<open>
  C4.  Once a call of \<^verbatim>\<open>handleDataPacket\<close> has made \<^verbatim>\<open>fullMessageReceived\<close> of a message
  true, the flag stays true and the message stays as it is through every further sequence
  of calls that return, and every further DATA packet of that message's id is released
  back to the driver, with \<^verbatim>\<open>nullptr\<close> returned and nothing else changed.
\<close>

theorem fullMessageReceived_monotone:
  assumes "handleDataPacket driver p0 r0 = Inr (ret0, r1)"
    and "\<not> isFull r0 m"
    and "isFull r1 m"
    and "handleDataPackets driver ps r1 = Inr (rets, r2)"
    and "messageId (common (payload packet)) = messageId (common (payload p0))"
  shows "isFull r2 m
       \<and> pool_get (messagePool r2) m = pool_get (messagePool r1) m
       \<and> handleDataPacket driver packet r2 =
           Inr (None, r2\<lparr> releasePackets := releasePackets r2 @ [self packet] \<rparr>)"
proof -
  let ?i = "messageId (common (payload p0))"
  from handleDataPacket_frame [OF assms(1)] obtain m0 im where
    m0: "messageOf ?i r1 = Some m0" and
    g: "pool_get (messagePool r1) m0 = Some im" and
    i: "id_m im = ?i" and
    c: "message im \<noteq> None" and
    fr: "\<forall>n. n \<noteq> m0 \<longrightarrow> pool_get (messagePool r1) n = pool_get (messagePool r0) n"
    by blast
  from fr assms(2,3) have mm: "m0 = m"
    by (auto simp: isFull_def)
  from g mm assms(3) have fl: "fullMessageReceived im"
    by (simp add: isFull_def)
  from c obtain b where b: "message im = Some b" by auto
  from handleDataPackets_full [OF assms(4) m0 g fl b] mm
  have m2: "messageOf ?i r2 = Some m" and g2: "pool_get (messagePool r2) m = Some im"
    by simp_all
  from handleDataPacket_drop_full [of packet r2 m im b driver] m2 g2 i fl b assms(5)
  have "handleDataPacket driver packet r2 =
          Inr (None, r2\<lparr> releasePackets := releasePackets r2 @ [self packet] \<rparr>)"
    by simp
  with g g2 mm fl show ?thesis by (simp add: isFull_def)
qed

theorem fullMessageReceived_monotone_witness:
  "handleDataPacket test_driver (test_packet 0) receiver_one_packet = Inr (Some 1, receiver_complete)
   \<and> \<not> isFull receiver_one_packet 0
   \<and> isFull receiver_complete 0
   \<and> handleDataPackets test_driver [test_packet 1] receiver_complete =
       Inr ([None], receiver_complete\<lparr> releasePackets := [5] \<rparr>)
   \<and> isFull (receiver_complete\<lparr> releasePackets := [5] \<rparr>) 0
   \<and> handleDataPacket test_driver (test_packet 0) (receiver_complete\<lparr> releasePackets := [5] \<rparr>) =
       Inr (None, receiver_complete\<lparr> releasePackets := [5, 5] \<rparr>)"
proof -
  have h: "handleDataPacket test_driver (test_packet 0) receiver_one_packet =
             Inr (Some 1, receiver_complete)"
    by (simp add: handleDataPacket_defs fixture_defs)
  have n: "\<not> isFull receiver_one_packet 0"
    by (simp add: isFull_def pool_get_def fixture_defs)
  have f: "isFull receiver_complete 0"
    by (simp add: isFull_def pool_get_def fixture_defs)
  have s: "handleDataPackets test_driver [test_packet 1] receiver_complete =
             Inr ([None], receiver_complete\<lparr> releasePackets := [5] \<rparr>)"
    by (simp add: handleDataPacket_defs fixture_defs)
  have i: "messageId (common (payload (test_packet 0))) = messageId (common (payload (test_packet 0)))"
    by simp
  from fullMessageReceived_monotone [OF h n f s i] h n f s show ?thesis
    by (simp add: fixture_defs)
qed

subsection \<open>One queue entry and one pool object per id\<close>

text \<open>
  C9.  A call of \<^verbatim>\<open>handleDataPacket\<close> that returns pushes a message on
  \<^verbatim>\<open>receivedMessages\<close> only when the packet's id is in neither \<^verbatim>\<open>registeredOps\<close> nor
  \<^verbatim>\<open>unregisteredMessages\<close>: it then constructs one pool object, makes it the id's
  unregistered message and pushes it once.  The id is known afterwards, and further DATA
  packets of known ids neither push anything on the queue nor construct a pool object.
\<close>

theorem message_enqueued_once:
  assumes "handleDataPacket driver packet r = Inr (ret, r1)"
    and "handleDataPackets driver ps r1 = Inr (rets, r2)"
    and "\<forall>p\<in>set ps. known (messageId (common (payload p))) r1"
  shows "(if known (messageId (common (payload packet))) r
          then receivedMessages r1 = receivedMessages r
             \<and> outstandingObjects (messagePool r1) = outstandingObjects (messagePool r)
          else (\<exists>m. pool_get (messagePool r) m = None
             \<and> unregisteredMessages r1 (messageId (common (payload packet))) = Some m
             \<and> receivedMessages r1 = receivedMessages r @ [m]
             \<and> outstandingObjects (messagePool r1) = Suc (outstandingObjects (messagePool r))))
       \<and> known (messageId (common (payload packet))) r1
       \<and> receivedMessages r2 = receivedMessages r1
       \<and> outstandingObjects (messagePool r2) = outstandingObjects (messagePool r1)"
  using handleDataPacket_fifo [OF assms(1)] handleDataPacket_stable [OF assms(1)]
    handleDataPackets_known [OF assms(2,3)]
  by simp

theorem message_enqueued_once_witness:
  "handleDataPacket test_driver (test_packet 1) Receiver_new = Inr (None, receiver_newUnregistered)
   \<and> \<not> known test_id Receiver_new
   \<and> receivedMessages receiver_newUnregistered = [0]
   \<and> outstandingObjects (messagePool receiver_newUnregistered) = 1
   \<and> (\<exists>rets r2. handleDataPackets test_driver [test_packet 1, test_packet 0]
                    receiver_newUnregistered = Inr (rets, r2)
         \<and> receivedMessages r2 = [0]
         \<and> outstandingObjects (messagePool r2) = 1)"
proof -
  have h: "handleDataPacket test_driver (test_packet 1) Receiver_new =
             Inr (None, receiver_newUnregistered)"
    by (simp add: receiver_newUnregistered_def handleDataPacket_defs fixture_defs)
  have "\<exists>rets r2. handleDataPackets test_driver [test_packet 1, test_packet 0]
                    receiver_newUnregistered = Inr (rets, r2)"
    by (simp add: receiver_newUnregistered_eq handleDataPacket_defs fixture_defs)
  then obtain rets r2 where
    s: "handleDataPackets test_driver [test_packet 1, test_packet 0] receiver_newUnregistered =
          Inr (rets, r2)"
    by blast
  have k: "\<forall>p\<in>set [test_packet 1, test_packet 0].
             known (messageId (common (payload p))) receiver_newUnregistered"
    by (simp add: known_def receiver_newUnregistered_eq fixture_defs)
  have n: "\<not> known test_id Receiver_new"
    by (simp add: known_def fixture_defs)
  have q: "receivedMessages receiver_newUnregistered = [0]"
    "outstandingObjects (messagePool receiver_newUnregistered) = 1"
    by (simp_all add: receiver_newUnregistered_eq outstandingObjects_def fixture_defs)
  from message_enqueued_once [OF h s k] h s n q show ?thesis
    by simp
qed

subsection \<open>The sanity checks\<close>

text \<open>
  C10 (as amended).  Let a first packet of an id have been processed, without a failed
  assertion, while the id's message had no buffer, and let any sequence of calls that
  return follow.  A further packet of that id that carries the first packet's
  \<^verbatim>\<open>totalLength\<close> and whose address prints as the first packet's address did is processed
  without a failed assertion: the call returns.  While the message is not yet full, a
  packet whose address prints differently fails the assertion on the source, and a packet
  with a different \<^verbatim>\<open>totalLength\<close> fails the assertion on the length.  Once the message is
  full, every packet of the id is released and \<^verbatim>\<open>nullptr\<close> returned, whatever it carries.
\<close>

theorem handleDataPacket_sanity_checks:
  assumes "handleDataPacket driver p0 r0 = Inr (ret0, r1)"
    and "messageOf (messageId (common (payload p0))) r1 = Some m"
    and "bufferOf r0 m = None"
    and "handleDataPackets driver ps r1 = Inr (rets, r2)"
    and "messageId (common (payload packet)) = messageId (common (payload p0))"
  shows "(totalLength (payload packet) = totalLength (payload p0)
            \<and> toString driver (address packet) = toString driver (address p0)
          \<longrightarrow> (\<exists>ret r3. handleDataPacket driver packet r2 = Inr (ret, r3)))
       \<and> (\<not> isFull r2 m
            \<and> toString driver (address packet) \<noteq> toString driver (address p0)
          \<longrightarrow> handleDataPacket driver packet r2 = Inl AssertSourceMismatch)
       \<and> (\<not> isFull r2 m
            \<and> toString driver (address packet) = toString driver (address p0)
            \<and> totalLength (payload packet) \<noteq> totalLength (payload p0)
          \<longrightarrow> handleDataPacket driver packet r2 = Inl AssertLengthMismatch)
       \<and> (isFull r2 m
          \<longrightarrow> handleDataPacket driver packet r2 =
                Inr (None, r2\<lparr> releasePackets := releasePackets r2 @ [self packet] \<rparr>))"
proof -
  let ?i = "messageId (common (payload p0))"
  from handleDataPacket_first [OF assms(1,2,3)] obtain im1 b1 where
    g1: "pool_get (messagePool r1) m = Some im1" and b1: "message im1 = Some b1" and
    i1: "id_m im1 = ?i" and l1: "messageLength b1 = totalLength (payload p0)" and
    s1: "fullMessageReceived im1
         \<or> (\<exists>src. source im1 = Some src \<and> toString driver src = toString driver (address p0))"
    by blast
  from handleDataPackets_source [OF assms(4,2) g1 b1] i1 l1 obtain im2 b2 where
    m2: "messageOf ?i r2 = Some m" and
    g2: "pool_get (messagePool r2) m = Some im2" and b2: "message im2 = Some b2" and
    i2: "id_m im2 = ?i" and l2: "messageLength b2 = totalLength (payload p0)" and
    s2: "source im2 = source im1" and
    f2: "fullMessageReceived im1 \<longrightarrow> fullMessageReceived im2"
    by auto
  show ?thesis
  proof (cases "fullMessageReceived im2")
    case True
    with handleDataPacket_drop_full [of packet r2 m im2 b2 driver] m2 g2 i2 b2 assms(5)
    show ?thesis by (simp add: isFull_def)
  next
    case False
    with f2 s1 s2 obtain src where
      src: "source im2 = Some src" "toString driver src = toString driver (address p0)"
      by auto
    from m2 i2 assms(5) have
      m2': "messageOf (messageId (common (payload packet))) r2 = Some m" and
      i2': "id_m im2 = messageId (common (payload packet))"
      by simp_all
    note a = handleDataPacket_asserts [OF m2' g2 i2' b2 False src(1), of driver,
        unfolded src(2) l2]
    from g2 False have "\<not> isFull r2 m"
      by (simp add: isFull_def)
    with a show ?thesis by blast
  qed
qed

theorem handleDataPacket_sanity_checks_witness:
  "handleDataPacket test_driver (test_packet 1) receiver_registered = Inr (None, receiver_one_packet)
   \<and> messageOf test_id receiver_one_packet = Some 0
   \<and> bufferOf receiver_registered 0 = None
   \<and> handleDataPackets test_driver [test_packet 1] receiver_one_packet =
       Inr ([None], receiver_one_packet\<lparr> releasePackets := [5] \<rparr>)
   \<and> (\<exists>ret r3. handleDataPacket test_driver (test_packet 0)
                   (receiver_one_packet\<lparr> releasePackets := [5] \<rparr>) = Inr (ret, r3))
   \<and> handleDataPacket test_driver stray_packet (receiver_one_packet\<lparr> releasePackets := [5] \<rparr>) =
       Inl AssertSourceMismatch"
proof -
  let ?r2 = "receiver_one_packet\<lparr> releasePackets := [5] \<rparr>"
  have h: "handleDataPacket test_driver (test_packet 1) receiver_registered =
             Inr (None, receiver_one_packet)"
    by (simp add: handleDataPacket_defs fixture_defs)
  have m: "messageOf (messageId (common (payload (test_packet 1)))) receiver_one_packet = Some 0"
    by (simp add: messageOf_def fixture_defs)
  have b: "bufferOf receiver_registered 0 = None"
    by (simp add: bufferOf_def pool_get_def InboundMessage_new_def fixture_defs)
  have s: "handleDataPackets test_driver [test_packet 1] receiver_one_packet = Inr ([None], ?r2)"
    by (simp add: handleDataPacket_defs fixture_defs)
  have i: "messageId (common (payload (test_packet 0))) = messageId (common (payload (test_packet 1)))"
    by (simp add: test_packet_def)
  have j: "messageId (common (payload stray_packet)) = messageId (common (payload (test_packet 1)))"
    by (simp add: test_packet_def stray_packet_def)
  have e: "totalLength (payload (test_packet 0)) = totalLength (payload (test_packet 1))
         \<and> toString test_driver (address (test_packet 0)) =
             toString test_driver (address (test_packet 1))"
    by (simp add: test_packet_def)
  have d: "\<not> isFull ?r2 0
         \<and> toString test_driver (address stray_packet) \<noteq>
             toString test_driver (address (test_packet 1))"
    by (simp add: isFull_def pool_get_def fixture_defs)
  have t: "messageId (common (payload (test_packet 1))) = test_id"
    by (simp add: test_packet_def)
  from handleDataPacket_sanity_checks [OF h m b s i] e
  have c1: "\<exists>ret r3. handleDataPacket test_driver (test_packet 0) ?r2 = Inr (ret, r3)"
    by blast
  from handleDataPacket_sanity_checks [OF h m b s j] d
  have c2: "handleDataPacket test_driver stray_packet ?r2 = Inl AssertSourceMismatch"
    by blast
  from c1 c2 h m b s t show ?thesis by simp
qed

text \<open>
  The claim as first stated has no assertion fail whenever every packet of a message
  agrees with the first one, and leaves the behaviour undefined otherwise.  With a driver
  whose \<^verbatim>\<open>getAddress\<close> hands back an address that prints differently, the very first
  packet of a message fails the assertion on the source.  And once the message of the
  tests is complete, a packet of its id with another address and another
  \<^verbatim>\<open>totalLength\<close> is released and \<^verbatim>\<open>nullptr\<close> returned: nothing is asserted.
\<close>

theorem handleDataPacket_sanity_checks_counterexample:
  "handleDataPacket lossy_driver (test_packet 1) receiver_registered = Inl AssertSourceMismatch
   \<and> handleDataPacket test_driver stray_packet receiver_complete =
       Inr (None, receiver_complete\<lparr> releasePackets := [6] \<rparr>)
   \<and> totalLength (payload stray_packet) \<noteq> totalLength (payload (test_packet 1))
   \<and> toString test_driver (address stray_packet) \<noteq>
       toString test_driver (address (test_packet 1))"
  by (simp add: handleDataPacket_defs fixture_defs)

subsection \<open>Chained requests of a server-role op\<close>

text \<open>
  C3 (as amended).  For a server-role op with a non-null inbound message,
  \<^verbatim>\<open>sendRequest(op, destination)\<close> calls \<^verbatim>\<open>Sender::sendMessage\<close> once, with the inbound
  message's transport id and op sequence, the inbound tag plus one (in 32 bits), the
  destination, the op, and \<^verbatim>\<open>expectAck = true\<close>.
\<close>

theorem sendRequest_server_op:
  assumes "isServerOp op'"
    and "inMessage op' = Some im"
  shows "sendRequest tags this destination op' t =
           Inr (op', t\<lparr> sendMessage := sendMessage t @
                          [(\<lparr> transportId = transportId (id_m im), sequence = sequence (id_m im),
                              tag = tag (id_m im) + 1 \<rparr>, destination, this, True)] \<rparr>)"
  using assms by (simp add: sendRequest_def chainedRequestId_def)

theorem sendRequest_server_op_witness:
  "isServerOp (test_op True NOT_STARTED (Some (test_inbound 2)))
   \<and> sendRequest test_tags 1 22 (test_op True NOT_STARTED (Some (test_inbound 2))) test_transport =
       Inr (test_op True NOT_STARTED (Some (test_inbound 2)),
            test_transport\<lparr> sendMessage := [(test_expectedId, 22, 1, True)] \<rparr>)"
proof -
  have s: "isServerOp (test_op True NOT_STARTED (Some (test_inbound 2)))"
    by (simp add: test_op_def)
  have i: "inMessage (test_op True NOT_STARTED (Some (test_inbound 2))) = Some (test_inbound 2)"
    by (simp add: test_op_def)
  from sendRequest_server_op [OF s i, of test_tags 1 22 test_transport] s show ?thesis
    by (simp add: test_inbound_def InboundMessage_new_def test_expectedId_def test_transport_def)
qed

text \<open>
  The claim as first stated forms the id by decrementing the tag.  In the test
  \<^verbatim>\<open>sendRequest_ServerOp\<close> the inbound id is (22, 42, 2) and the call the test expects carries
  (22, 42, 3); the decremented id would be (22, 42, 1).
\<close>

theorem sendRequest_decrement_counterexample:
  "sendRequest test_tags 1 22 (test_op True NOT_STARTED (Some (test_inbound 2))) test_transport =
     Inr (test_op True NOT_STARTED (Some (test_inbound 2)),
          test_transport\<lparr> sendMessage := [(test_expectedId, 22, 1, True)] \<rparr>)
   \<and> test_expectedId \<noteq> chainedRequestId_spec (id_m (test_inbound 2))
   \<and> tag (chainedRequestId_spec (id_m (test_inbound 2))) = 1
   \<and> tag test_expectedId = 3"
  by (simp add: sendRequest_def chainedRequestId_def chainedRequestId_spec_def test_op_def
      test_inbound_def InboundMessage_new_def test_expectedId_def test_transport_def)

subsection \<open>A server-role op whose reply has been sent\<close>

text \<open>
  An op marked \<open>destroy\<close> falls under the first rule of \<^verbatim>\<open>processUpdates\<close>: nothing
  happens.  A server-role op is only ever marked in a terminal state, and this is kept by
  \<^verbatim>\<open>processUpdates\<close>, so the server-role ops in state \<^verbatim>\<open>IN_PROGRESS\<close> are not marked.
\<close>

lemma processUpdates_destroy_noop:
  "destroy op' \<Longrightarrow> processUpdates tags this op' t = Inr (op', t)"
  by (simp add: processUpdates_def)

lemma processUpdates_server_destroy_terminal:
  assumes "processUpdates tags this op' t = Inr (op'', t')"
    and "isServerOp op'"
    and "destroy op' \<longrightarrow> state op' = COMPLETED \<or> state op' = FAILED"
  shows "isServerOp op'' \<and> (destroy op'' \<longrightarrow> state op'' = COMPLETED \<or> state op'' = FAILED)"
  using assms
  by (auto simp: processUpdates_def drop_op_def split: if_splits State.splits option.splits)

text \<open>
  C7.  For a server-role op in state \<^verbatim>\<open>IN_PROGRESS\<close> (hence not marked \<open>destroy\<close>) whose
  outbound message is done, \<^verbatim>\<open>processUpdates\<close> moves the op to \<^verbatim>\<open>COMPLETED\<close> and changes
  nothing else of it.  With \<open>im\<close> the op's inbound message, it makes no call on the driver
  when the tag of \<open>im\<close> is \<^verbatim>\<open>INITIAL_REQUEST_TAG\<close>; otherwise it allocates a packet from the
  driver, sends it as a DONE for the inbound id to the source of \<open>im\<close>, and releases it
  after the send.
\<close>

theorem processUpdates_server_done:
  assumes "isServerOp op'"
    and "state op' = IN_PROGRESS"
    and "isDone (outMessage op')"
    and "inMessage op' = Some im"
    and "\<not> destroy op'"
  shows "\<exists>t'. processUpdates tags this op' t = Inr (op'\<lparr> state := COMPLETED \<rparr>, t')
       \<and> driverCalls t' =
           (if tag (id_m im) = INITIAL_REQUEST_TAG tags then driverCalls t
            else driverCalls t @
                   [AllocPacket (nextPacket t),
                    SendPackets (nextPacket t) DONE (id_m im) (source im),
                    ReleasePackets (nextPacket t)])"
  using assms
  by (simp add: processUpdates_def hintUpdate_def sendDonePacket_def Let_def)

theorem processUpdates_server_done_witness:
  "\<exists>t'. processUpdates test_tags 1 (test_op True IN_PROGRESS (Some (test_inbound 2))) test_transport =
          Inr (test_op True COMPLETED (Some (test_inbound 2)), t')
       \<and> driverCalls t' =
           [AllocPacket 0, SendPackets 0 DONE (id_m (test_inbound 2)) None, ReleasePackets 0]"
proof -
  let ?op = "test_op True IN_PROGRESS (Some (test_inbound 2))"
  have a: "isServerOp ?op" "state ?op = IN_PROGRESS" "isDone (outMessage ?op)"
    "inMessage ?op = Some (test_inbound 2)" "\<not> destroy ?op"
    by (simp_all add: test_op_def isDone_def)
  from processUpdates_server_done [OF a, of test_tags 1 test_transport] show ?thesis
    by (simp add: test_op_def test_inbound_def InboundMessage_new_def test_expectedId_def
        test_transport_def test_tags_def)
qed

subsection \<open>Retention and destruction\<close>

text \<open>
  C8.  For an op of either role in state \<^verbatim>\<open>COMPLETED\<close> or \<^verbatim>\<open>FAILED\<close>, \<^verbatim>\<open>processUpdates\<close>
  returns and keeps the state and the retention flag.  If the op is not retained, \<open>destroy\<close>
  is true afterwards.  If the op is retained, the call changes neither the op nor the
  transport, so \<open>destroy\<close> is never set as long as the op stays retained.
\<close>

theorem processUpdates_terminal:
  assumes "state op' = COMPLETED \<or> state op' = FAILED"
  shows "\<exists>op'' t'. processUpdates tags this op' t = Inr (op'', t')
       \<and> state op'' = state op' \<and> retained op'' = retained op'
       \<and> (if retained op' then op'' = op' \<and> t' = t else destroy op'')"
  using assms
  by (auto simp: processUpdates_def drop_op_def)

theorem processUpdates_terminal_witness:
  "state (test_op False COMPLETED None) = COMPLETED
   \<and> (\<exists>op'' t'. processUpdates test_tags 1 (test_op False COMPLETED None) test_transport = Inr (op'', t')
         \<and> destroy op'')"
proof -
  have s: "state (test_op False COMPLETED None) = COMPLETED \<or> state (test_op False COMPLETED None) = FAILED"
    by (simp add: test_op_def)
  have r: "\<not> retained (test_op False COMPLETED None)"
    by (simp add: test_op_def)
  from processUpdates_terminal [OF s, of test_tags 1 test_transport] r show ?thesis
    by (auto simp: test_op_def)
qed

end
